theory Spec2Isabelle
  imports Complex_Main "HOL-Library.Char_ord" "HOL-Library.List_Lexorder" "HOL-Library.Multiset"
begin

section \<open>Values of the Python program\<close>

subsection \<open>Exceptions\<close>

text \<open>
  Every exception the modelled code can raise is a value. \<open>OverflowError\<close> stands for what
  \<^verbatim>\<open>datetime.fromtimestamp\<close> raises on a timestamp outside the years 1 to 9999
  (OverflowError, ValueError or OSError, depending on the platform).
\<close>

datatype exn = KeyError | TypeError | ValueError | AttributeError | OverflowError

subsection \<open>Calendar dates and times (the \<^verbatim>\<open>datetime\<close> library)\<close>

text \<open>
  A \<^verbatim>\<open>datetime\<close> object: its civil fields and its \<^verbatim>\<open>tzinfo\<close>, \<open>None\<close> for a naive
  object and \<open>Some off\<close> for an aware one with UTC offset \<open>off\<close> in microseconds.
\<close>

record datetime =
  year :: nat
  month :: nat
  day :: nat
  hour :: nat
  minute :: nat
  second :: nat
  microsecond :: nat
  tzinfo :: "int option"

definition is_leap :: "nat \<Rightarrow> bool" where
  "is_leap y \<longleftrightarrow> y mod 4 = 0 \<and> (y mod 100 \<noteq> 0 \<or> y mod 400 = 0)"

definition days_before_year :: "nat \<Rightarrow> nat" where
  "days_before_year y = (y - 1) * 365 + (y - 1) div 4 - (y - 1) div 100 + (y - 1) div 400"

definition days_in_month :: "nat \<Rightarrow> nat \<Rightarrow> nat" where
  "days_in_month y m =
     (if m = 2 \<and> is_leap y then 29
      else [0, 31, 28, 31, 30, 31, 30, 31, 31, 30, 31, 30, 31] ! m)"

definition days_before_month :: "nat \<Rightarrow> nat \<Rightarrow> nat" where
  "days_before_month y m =
     [0, 0, 31, 59, 90, 120, 151, 181, 212, 243, 273, 304, 334] ! m
       + (if m > 2 \<and> is_leap y then 1 else 0)"

definition ymd2ord :: "nat \<Rightarrow> nat \<Rightarrow> nat \<Rightarrow> nat" where
  "ymd2ord y m d = days_before_year y + days_before_month y m + d"

text \<open>The objects the library can build: years 1 to 9999, fields in range, an offset
  strictly within a day.\<close>

definition valid_datetime :: "datetime \<Rightarrow> bool" where
  "valid_datetime d \<longleftrightarrow>
     1 \<le> year d \<and> year d \<le> 9999 \<and> 1 \<le> month d \<and> month d \<le> 12 \<and>
     1 \<le> day d \<and> day d \<le> days_in_month (year d) (month d) \<and>
     hour d < 24 \<and> minute d < 60 \<and> second d < 60 \<and> microsecond d < 1000000 \<and>
     (case tzinfo d of None \<Rightarrow> True
      | Some off \<Rightarrow> - 86400000000 < off \<and> off < 86400000000)"

text \<open>
  \<open>wall d\<close> is the number of microseconds from 1970-01-01T00:00:00 to the civil fields of
  \<open>d\<close>, the offset ignored (1970-01-01 has ordinal 719163). The difference and the order
  of two naive objects are those of their \<open>wall\<close>; of two aware objects those of
  \<open>wall\<close> minus offset; mixing a naive and an aware object raises TypeError.
\<close>

definition wall :: "datetime \<Rightarrow> int" where
  "wall d =
     (((int (ymd2ord (year d) (month d) (day d)) - 719163) * 24 + int (hour d)) * 60
        + int (minute d)) * 60000000
      + int (second d) * 1000000 + int (microsecond d)"

definition dt_sub :: "datetime \<Rightarrow> datetime \<Rightarrow> exn + int" where
  "dt_sub a b =
     (case (tzinfo a, tzinfo b) of
        (None, None) \<Rightarrow> Inr (wall a - wall b)
      | (Some oa, Some ob) \<Rightarrow> Inr ((wall a - oa) - (wall b - ob))
      | _ \<Rightarrow> Inl TypeError)"

text \<open>\<^verbatim>\<open>isoformat()\<close>: zero-padded fields, the fraction only when the microsecond is not
  0, then the offset of an aware object.\<close>

definition digit_char :: "nat \<Rightarrow> char" where
  "digit_char n = char_of (48 + n mod 10)"

fun pad :: "nat \<Rightarrow> nat \<Rightarrow> string" where
  "pad 0 n = []"
| "pad (Suc k) n = pad k (n div 10) @ [digit_char n]"

definition format_offset :: "int option \<Rightarrow> string" where
  "format_offset tz =
     (case tz of None \<Rightarrow> []
      | Some off \<Rightarrow>
          (let a = nat \<bar>off\<bar>;
               hh = a div 3600000000;
               mm = (a mod 3600000000) div 60000000;
               ss = (a mod 60000000) div 1000000;
               us = a mod 1000000
           in (if off < 0 then ''-'' else ''+'') @ pad 2 hh @ '':'' @ pad 2 mm
              @ (if ss \<noteq> 0 \<or> us \<noteq> 0 then '':'' @ pad 2 ss else [])
              @ (if us \<noteq> 0 then ''.'' @ pad 6 us else [])))"

definition isoformat :: "datetime \<Rightarrow> string" where
  "isoformat d =
     pad 4 (year d) @ ''-'' @ pad 2 (month d) @ ''-'' @ pad 2 (day d) @ ''T''
     @ pad 2 (hour d) @ '':'' @ pad 2 (minute d) @ '':'' @ pad 2 (second d)
     @ (if microsecond d \<noteq> 0 then ''.'' @ pad 6 (microsecond d) else [])
     @ format_offset (tzinfo d)"

text \<open>The order of two objects by their civil fields, the year first.\<close>

definition fields_less :: "datetime \<Rightarrow> datetime \<Rightarrow> bool" where
  "fields_less a b \<longleftrightarrow>
     year a < year b \<or> year a = year b \<and>
    (month a < month b \<or> month a = month b \<and>
    (day a < day b \<or> day a = day b \<and>
    (hour a < hour b \<or> hour a = hour b \<and>
    (minute a < minute b \<or> minute a = minute b \<and>
    (second a < second b \<or> second a = second b \<and> microsecond a < microsecond b)))))"

subsection \<open>JSON values\<close>

text \<open>
  What \<^verbatim>\<open>json.load\<close> returns. A float is given by its exact value (the non-standard
  literals NaN and Infinity are left out). A string is \<open>JIso d\<close> when it is the text
  \<open>isoformat d\<close> of a valid \<open>d\<close>, the form in which the program writes every timestamp
  and which \<^verbatim>\<open>datetime.fromisoformat\<close> reads back as \<open>d\<close>; every other string is
  \<open>JStr s\<close>. An object is the list of its members, a key bound once.
\<close>

datatype json =
    JNull
  | JBool bool
  | JInt int
  | JFloat rat
  | JStr string
  | JIso datetime
  | JArr "json list"
  | JObj "(string \<times> json) list"

text \<open>A file of the program: absent, present but not loadable (unreadable, empty,
  partially written, not JSON), or holding a JSON value.\<close>

datatype pyfile = Missing | Unreadable | Content json

definition py_truthy :: "json \<Rightarrow> bool" where
  "py_truthy v =
     (case v of JNull \<Rightarrow> False | JBool b \<Rightarrow> b | JInt n \<Rightarrow> n \<noteq> 0 | JFloat q \<Rightarrow> q \<noteq> 0
      | JStr s \<Rightarrow> s \<noteq> [] | JIso d \<Rightarrow> True | JArr xs \<Rightarrow> xs \<noteq> [] | JObj kvs \<Rightarrow> kvs \<noteq> [])"

text \<open>\<^verbatim>\<open>v == 0\<close>: true of the numbers 0 and 0.0 and of False.\<close>

definition py_eq0 :: "json \<Rightarrow> bool" where
  "py_eq0 v =
     (case v of JBool b \<Rightarrow> \<not> b | JInt n \<Rightarrow> n = 0 | JFloat q \<Rightarrow> q = 0 | _ \<Rightarrow> False)"

text \<open>The value of a number (a bool is the integer 0 or 1).\<close>

definition num_of :: "json \<Rightarrow> rat option" where
  "num_of v =
     (case v of JBool b \<Rightarrow> Some (if b then 1 else 0) | JInt n \<Rightarrow> Some (of_int n)
      | JFloat q \<Rightarrow> Some q | _ \<Rightarrow> None)"

text \<open>\<^verbatim>\<open>x[k]\<close> with a string key: KeyError on a dict without the key, TypeError on every
  other value.\<close>

definition py_getitem :: "json \<Rightarrow> string \<Rightarrow> exn + json" where
  "py_getitem x k =
     (case x of
        JObj kvs \<Rightarrow> (case map_of kvs k of None \<Rightarrow> Inl KeyError | Some v \<Rightarrow> Inr v)
      | _ \<Rightarrow> Inl TypeError)"

text \<open>\<^verbatim>\<open>x.get(k, default)\<close>: only a dict has the method.\<close>

definition py_get :: "json \<Rightarrow> string \<Rightarrow> json \<Rightarrow> exn + json" where
  "py_get x k dflt =
     (case x of
        JObj kvs \<Rightarrow> Inr (case map_of kvs k of None \<Rightarrow> dflt | Some v \<Rightarrow> v)
      | _ \<Rightarrow> Inl AttributeError)"

text \<open>
  \<^verbatim>\<open>datetime.fromisoformat(v)\<close>. Which other spellings of a timestamp the library
  accepts (a space for the \<^verbatim>\<open>T\<close>, a \<^verbatim>\<open>Z\<close>, no seconds, the basic format) depends on
  its version, so its answer on a string that is not in the form of \<open>isoformat\<close> is
  an argument: \<open>parse s\<close> is \<open>Some d\<close> when the library returns \<open>d\<close> and \<open>None\<close> when
  it raises ValueError. Any value that is not a string raises TypeError.
\<close>

definition fromisoformat :: "(string \<Rightarrow> datetime option) \<Rightarrow> json \<Rightarrow> exn + datetime" where
  "fromisoformat parse v =
     (case v of
        JIso d \<Rightarrow> Inr d
      | JStr s \<Rightarrow> (case parse s of None \<Rightarrow> Inl ValueError | Some d \<Rightarrow> Inr d)
      | _ \<Rightarrow> Inl TypeError)"

text \<open>The text of a string value.\<close>

definition text_of :: "json \<Rightarrow> string option" where
  "text_of v = (case v of JStr s \<Rightarrow> Some s | JIso d \<Rightarrow> Some (isoformat d) | _ \<Rightarrow> None)"

text \<open>
  \<^verbatim>\<open>a == b\<close> never raises: numbers are equal by value, strings by text, lists
  element by element, dicts when they bind the same keys to equal values.
\<close>

fun py_eq :: "json \<Rightarrow> json \<Rightarrow> bool"
  and py_eq_list :: "json list \<Rightarrow> json list \<Rightarrow> bool"
  and py_eq_items :: "(string \<times> json) list \<Rightarrow> (string \<times> json) list \<Rightarrow> bool" where
  "py_eq (JArr xs) (JArr ys) = py_eq_list xs ys"
| "py_eq (JObj kvs) (JObj kvs') = (length kvs = length kvs' \<and> py_eq_items kvs kvs')"
| "py_eq a b =
     (case (num_of a, num_of b) of
        (Some x, Some y) \<Rightarrow> x = y
      | _ \<Rightarrow>
          (case (text_of a, text_of b) of
             (Some s, Some t) \<Rightarrow> s = t
           | _ \<Rightarrow> a = JNull \<and> b = JNull))"
| "py_eq_list [] ys = (ys = [])"
| "py_eq_list (x # xs) [] = False"
| "py_eq_list (x # xs) (y # ys) = (py_eq x y \<and> py_eq_list xs ys)"
| "py_eq_items [] kvs' = True"
| "py_eq_items ((k, v) # kvs) kvs' =
     ((case map_of kvs' k of None \<Rightarrow> False | Some v' \<Rightarrow> py_eq v v') \<and> py_eq_items kvs kvs')"

text \<open>
  \<^verbatim>\<open>a < b\<close>: numbers by value, strings by text (code point order), lists by the first
  pair of unequal elements or else by length; every other pair raises TypeError.
\<close>

fun py_lt :: "json \<Rightarrow> json \<Rightarrow> exn + bool"
  and py_lt_list :: "json list \<Rightarrow> json list \<Rightarrow> exn + bool" where
  "py_lt (JArr xs) (JArr ys) = py_lt_list xs ys"
| "py_lt a b =
     (case (num_of a, num_of b) of
        (Some x, Some y) \<Rightarrow> Inr (x < y)
      | _ \<Rightarrow>
          (case (text_of a, text_of b) of
             (Some s, Some t) \<Rightarrow> Inr (s < t)
           | _ \<Rightarrow> Inl TypeError))"
| "py_lt_list [] ys = Inr (ys \<noteq> [])"
| "py_lt_list (x # xs) [] = Inr False"
| "py_lt_list (x # xs) (y # ys) = (if py_eq x y then py_lt_list xs ys else py_lt x y)"

text \<open>The least and the greatest \<open>wall\<close> of the years 1 to 9999.\<close>

definition min_wall :: int where
  "min_wall = - 62135596800000000"

definition max_wall :: int where
  "max_wall = 253402300799999999"

text \<open>Python's \<^verbatim>\<open>int(v)\<close>. A character stands for its code point, below 256. A string is
  stripped of white space at both ends and holds an optional sign and decimal digits,
  single underscores between digits allowed. \<^verbatim>\<open>int\<close> strips the ASCII characters 9 to 13
  and the blank and, of the others below 256, the two that are white space, 133 and 160;
  it does not strip the separators 28 to 31.\<close>

definition is_space :: "char \<Rightarrow> bool" where
  "is_space c \<longleftrightarrow>
     (let n = (of_char c :: nat) in (9 \<le> n \<and> n \<le> 13) \<or> n = 32 \<or> n = 133 \<or> n = 160)"

definition is_digit :: "char \<Rightarrow> bool" where
  "is_digit c \<longleftrightarrow> (let n = (of_char c :: nat) in 48 \<le> n \<and> n \<le> 57)"

definition digit_val :: "char \<Rightarrow> nat" where
  "digit_val c = of_char c - 48"

fun digits_value :: "nat \<Rightarrow> string \<Rightarrow> nat option" where
  "digits_value acc [] = Some acc"
| "digits_value acc [c] = (if is_digit c then Some (acc * 10 + digit_val c) else None)"
| "digits_value acc (c # d # cs) =
     (if is_digit c then digits_value (acc * 10 + digit_val c) (d # cs)
      else if c = CHR ''_'' \<and> is_digit d then digits_value acc (d # cs)
      else None)"

definition unsigned_value :: "string \<Rightarrow> nat option" where
  "unsigned_value s =
     (case s of [] \<Rightarrow> None | c # cs \<Rightarrow> if is_digit c then digits_value 0 s else None)"

definition strip :: "string \<Rightarrow> string" where
  "strip s = rev (dropWhile is_space (rev (dropWhile is_space s)))"

definition int_of_string :: "string \<Rightarrow> int option" where
  "int_of_string s =
     (case strip s of
        [] \<Rightarrow> None
      | c # cs \<Rightarrow>
          if c = CHR ''-'' then map_option (\<lambda>n. - int n) (unsigned_value cs)
          else if c = CHR ''+'' then map_option int (unsigned_value cs)
          else map_option int (unsigned_value (c # cs)))"

definition py_int :: "json \<Rightarrow> exn + int" where
  "py_int v =
     (case v of
        JInt n \<Rightarrow> Inr n
      | JBool b \<Rightarrow> Inr (if b then 1 else 0)
      | JFloat q \<Rightarrow> Inr (if 0 \<le> q then \<lfloor>q\<rfloor> else \<lceil>q\<rceil>)
      | JStr s \<Rightarrow> (case int_of_string s of None \<Rightarrow> Inl ValueError | Some n \<Rightarrow> Inr n)
      | JIso d \<Rightarrow> Inl ValueError
      | _ \<Rightarrow> Inl TypeError)"

text \<open>\<^verbatim>\<open>datetime.fromtimestamp(n, tz=timezone.utc)\<close>, an aware object given by its instant
  in microseconds; it raises outside the years 1 to 9999.\<close>

definition fromtimestamp_utc :: "int \<Rightarrow> exn + int" where
  "fromtimestamp_utc n =
     (let t = n * 1000000
      in if min_wall \<le> t \<and> t \<le> max_wall then Inr t else Inl OverflowError)"

section \<open>The environment of a call\<close>

text \<open>
  One call reads the clock and the three files. \<open>clock_utc\<close> holds the civil fields of
  \<^verbatim>\<open>datetime.now(timezone.utc)\<close> and \<open>clock_local\<close> those of \<^verbatim>\<open>datetime.now()\<close>; the clock
  does not advance during a call. \<open>cache_file\<close> is data/twitter_rate_limits_cache.json,
  \<open>tweet_log_file\<close> is data/tweet_history.json and \<open>rate_limit_cache_file\<close> is
  data/latest_rate_limit.json.

  Two answers of the \<^verbatim>\<open>datetime\<close> library depend on its version, the platform and the
  time zone, and belong to the environment. \<open>iso_parse s\<close> is what
  \<^verbatim>\<open>datetime.fromisoformat\<close> makes of a string \<open>s\<close> that is not in the form of
  \<open>isoformat\<close>: \<open>Some d\<close>, or \<open>None\<close> for ValueError. \<open>localtime t\<close> is the \<open>wall\<close> of
  the naive local object \<^verbatim>\<open>datetime.fromtimestamp\<close> returns for the POSIX timestamp of
  \<open>t\<close> microseconds, with the offset the zone has at that time, or \<open>None\<close> where the
  library raises because the platform cannot convert it.
\<close>

record world =
  clock_utc :: datetime
  clock_local :: datetime
  iso_parse :: "string \<Rightarrow> datetime option"
  localtime :: "int \<Rightarrow> int option"
  cache_file :: pyfile
  tweet_log_file :: pyfile
  rate_limit_cache_file :: pyfile

definition utcnow :: "world \<Rightarrow> datetime" where
  "utcnow w = (clock_utc w)\<lparr>tzinfo := Some 0\<rparr>"

definition localnow :: "world \<Rightarrow> datetime" where
  "localnow w = (clock_local w)\<lparr>tzinfo := None\<rparr>"

text \<open>The POSIX timestamp of the call, in microseconds.\<close>

definition now_us :: "world \<Rightarrow> int" where
  "now_us w = wall (clock_utc w)"

definition round_half_even :: "rat \<Rightarrow> int" where
  "round_half_even q =
     (let f = \<lfloor>q\<rfloor>; r = q - of_int f
      in if r < 1 / 2 then f else if 1 / 2 < r then f + 1 else if even f then f else f + 1)"

text \<open>The microseconds of a numeric POSIX timestamp; TypeError on any other value.\<close>

definition timestamp_us :: "json \<Rightarrow> exn + int" where
  "timestamp_us v =
     (case v of JInt n \<Rightarrow> Inr (n * 1000000) | JBool b \<Rightarrow> Inr (if b then 1000000 else 0)
      | JFloat q \<Rightarrow> Inr (round_half_even (q * 1000000)) | _ \<Rightarrow> Inl TypeError)"

text \<open>\<^verbatim>\<open>datetime.fromtimestamp(v)\<close>, a naive object in local time, given by its \<open>wall\<close>.\<close>

definition fromtimestamp_local :: "world \<Rightarrow> json \<Rightarrow> exn + int" where
  "fromtimestamp_local w v =
     (case timestamp_us v of Inl e \<Rightarrow> Inl e
      | Inr us \<Rightarrow> (case localtime w us of None \<Rightarrow> Inl OverflowError | Some t \<Rightarrow> Inr t))"

section \<open>twitter\_rate\_limits.py\<close>

definition FREE_TIER_24H_LIMIT :: int where
  "FREE_TIER_24H_LIMIT = 17"

text \<open>\<^verbatim>\<open>get_cached_rate_limits\<close>: the cache is returned when its timestamp is less than 24
  hours old; every exception is caught.\<close>

definition get_cached_rate_limits :: "world \<Rightarrow> json option" where
  "get_cached_rate_limits w =
     (case cache_file w of
        Missing \<Rightarrow> None
      | Unreadable \<Rightarrow> None
      | Content data \<Rightarrow>
          (case py_getitem data ''timestamp'' of
             Inl e \<Rightarrow> None
           | Inr ts \<Rightarrow>
               (case fromisoformat (iso_parse w) ts of
                  Inl e \<Rightarrow> None
                | Inr cached_time \<Rightarrow>
                    (case dt_sub (localnow w) cached_time of
                       Inl e \<Rightarrow> None
                     | Inr age_us \<Rightarrow>
                         if (of_int age_us :: rat) / 1000000 / 3600 < 24 then Some data
                         else None))))"

text \<open>
  \<^verbatim>\<open>get_24h_rate_limits_from_api\<close> up to its unconditional \<^verbatim>\<open>return None\<close>; nothing after it
  runs. The f-string of the log line is evaluated, outside any \<^verbatim>\<open>try\<close>.
\<close>

definition log_24h_limit :: "json \<Rightarrow> exn + unit" where
  "log_24h_limit cached_data =
     (case py_get cached_data ''app_24h'' (JObj []) of
        Inl e \<Rightarrow> Inl e
      | Inr app \<Rightarrow>
          (case py_get app ''remaining'' (JInt 0) of
             Inl e \<Rightarrow> Inl e
           | Inr r \<Rightarrow> (case py_get app ''limit'' (JInt 17) of Inl e \<Rightarrow> Inl e | Inr l \<Rightarrow> Inr ())))"

definition get_24h_rate_limits_from_api :: "world \<Rightarrow> exn + json option" where
  "get_24h_rate_limits_from_api w =
     (case get_cached_rate_limits w of
        None \<Rightarrow> Inr None
      | Some cached_data \<Rightarrow>
          if \<not> py_truthy cached_data then Inr None
          else
            (case py_get cached_data ''source'' JNull of
               Inl e \<Rightarrow> Inl e
             | Inr src \<Rightarrow>
                 if src = JStr ''error_headers'' \<or> src = JStr ''error_response'' then
                   (case log_24h_limit cached_data of
                      Inl e \<Rightarrow> Inl e
                    | Inr u \<Rightarrow> Inr (Some cached_data))
                 else Inr None))"

text \<open>
  The message of \<^verbatim>\<open>check_can_post_tweet\<close> is an f-string; its pieces are kept apart:
  literal text, \<open>F1 h\<close> for \<^verbatim>\<open>{hours:.1f}\<close> of the number \<open>h\<close>, \<open>HMS t\<close> for
  \<^verbatim>\<open>strftime('%H:%M:%S')\<close> of the naive local object with \<open>wall\<close> \<open>t\<close>, and \<open>Val v\<close> for
  the text of a value.
\<close>

datatype piece = Lit string | F1 rat | HMS int | Val json

text \<open>\<^verbatim>\<open>min(a, b)\<close>: \<open>b\<close> when \<open>b < a\<close>, else \<open>a\<close>.\<close>

definition py_min :: "json \<Rightarrow> json \<Rightarrow> exn + json" where
  "py_min a b = (case py_lt b a of Inl e \<Rightarrow> Inl e | Inr t \<Rightarrow> Inr (if t then b else a))"

definition exhausted_message :: "world \<Rightarrow> string \<Rightarrow> json \<Rightarrow> exn + bool \<times> piece list" where
  "exhausted_message w scope_name scope =
     (case py_getitem scope ''reset'' of
        Inl e \<Rightarrow> Inl e
      | Inr r \<Rightarrow>
          (case fromtimestamp_local w r of
             Inl e \<Rightarrow> Inl e
           | Inr reset_dt \<Rightarrow>
               (let hours = (of_int (reset_dt - wall (localnow w)) :: rat) / 1000000 / 3600
                in Inr (False,
                     [Lit scope_name, Lit '' 24-hour limit exhausted. Resets in '', F1 hours,
                      Lit '' hours at '', HMS reset_dt]))))"

definition unknown_message :: "piece list" where
  "unknown_message = [Lit ''Rate limit status unknown - proceed with caution'']"

definition check_limits :: "world \<Rightarrow> json \<Rightarrow> exn + bool \<times> piece list" where
  "check_limits w limits =
     (case py_get limits ''app_24h'' (JObj []) of
        Inl e \<Rightarrow> Inl e
      | Inr app \<Rightarrow>
     (case py_get limits ''user_24h'' (JObj []) of
        Inl e \<Rightarrow> Inl e
      | Inr user \<Rightarrow>
     (case py_get app ''remaining'' (JInt 0) of
        Inl e \<Rightarrow> Inl e
      | Inr app_remaining \<Rightarrow>
     (case py_get user ''remaining'' (JInt 0) of
        Inl e \<Rightarrow> Inl e
      | Inr user_remaining \<Rightarrow>
          if py_eq0 app_remaining then exhausted_message w ''APP'' app
          else if py_eq0 user_remaining then exhausted_message w ''USER'' user
          else
            (case py_min app_remaining user_remaining of
               Inl e \<Rightarrow> Inl e
             | Inr m \<Rightarrow>
                 Inr (True,
                   [Lit ''Can post - '', Val m, Lit '' tweets remaining in 24h window'']))))))"

text \<open>\<^verbatim>\<open>check_can_post_tweet\<close>: the limits of the live check, else the cache read again,
  else the answer for no data.\<close>

definition check_can_post_tweet :: "world \<Rightarrow> exn + bool \<times> piece list" where
  "check_can_post_tweet w =
     (case get_24h_rate_limits_from_api w of
        Inl e \<Rightarrow> Inl e
      | Inr live \<Rightarrow>
          (let limits =
             (case live of
                None \<Rightarrow> get_cached_rate_limits w
              | Some l \<Rightarrow> if py_truthy l then Some l else get_cached_rate_limits w)
           in case limits of
                None \<Rightarrow> Inr (True, unknown_message)
              | Some l \<Rightarrow>
                  if \<not> py_truthy l then Inr (True, unknown_message) else check_limits w l))"

text \<open>
  The rest of \<^verbatim>\<open>get_24h_rate_limits_from_api\<close>, with the handler that would build limits
  from the headers of a rejection, stands behind the unconditional \<^verbatim>\<open>return None\<close>; the
  program never runs it and it has no part in this model.
\<close>

section \<open>tweet\_counter.py\<close>

text \<open>\<^verbatim>\<open>_load_tweet_log\<close>: the JSON value of the log file, the empty list when the file is
  absent or cannot be loaded.\<close>

definition load_tweet_log :: "world \<Rightarrow> json" where
  "load_tweet_log w =
     (case tweet_log_file w of Missing \<Rightarrow> JArr [] | Unreadable \<Rightarrow> JArr [] | Content j \<Rightarrow> j)"

text \<open>What a \<^verbatim>\<open>for\<close> loop iterates over: the elements of a list, the keys of a dict, the
  characters of a string; TypeError for every other value.\<close>

definition py_iter :: "json \<Rightarrow> exn + json list" where
  "py_iter v =
     (case v of
        JArr xs \<Rightarrow> Inr xs
      | JObj kvs \<Rightarrow> Inr (map (\<lambda>kv. JStr (fst kv)) kvs)
      | JStr s \<Rightarrow> Inr (map (\<lambda>c. JStr [c]) s)
      | JIso d \<Rightarrow> Inr (map (\<lambda>c. JStr [c]) (isoformat d))
      | _ \<Rightarrow> Inl TypeError)"

text \<open>\<^verbatim>\<open>len(v)\<close> of a value that was iterated.\<close>

definition py_len :: "json \<Rightarrow> nat" where
  "py_len v = (case py_iter v of Inl e \<Rightarrow> 0 | Inr xs \<Rightarrow> length xs)"

text \<open>
  \<^verbatim>\<open>posted_at >= datetime.now(timezone.utc) - timedelta(hours=h)\<close>, written as a bound on
  \<^verbatim>\<open>posted_at - now\<close>: the cutoff itself is not built.
\<close>

definition since_cutoff :: "world \<Rightarrow> int \<Rightarrow> datetime \<Rightarrow> exn + bool" where
  "since_cutoff w h posted_at =
     (case dt_sub posted_at (utcnow w) of
        Inl e \<Rightarrow> Inl e
      | Inr us \<Rightarrow> Inr (- (h * 3600000000) \<le> us))"

text \<open>An element of \<^verbatim>\<open>tweets_24h\<close>.\<close>

record tweet24 =
  t_id :: json
  t_posted_at :: string
  t_text :: json
  t_age_hours :: rat

text \<open>One turn of the loop of \<^verbatim>\<open>get_tweet_count_24h\<close>: the entry appended, if any.\<close>

definition tweet_24h :: "world \<Rightarrow> json \<Rightarrow> exn + tweet24 option" where
  "tweet_24h w tweet =
     (case py_getitem tweet ''posted_at'' of
        Inl e \<Rightarrow> Inl e
      | Inr p \<Rightarrow>
     (case fromisoformat (iso_parse w) p of
        Inl e \<Rightarrow> Inl e
      | Inr posted_at \<Rightarrow>
     (case since_cutoff w 24 posted_at of
        Inl e \<Rightarrow> Inl e
      | Inr recent \<Rightarrow>
          if \<not> recent then Inr None
          else
            (case py_getitem tweet ''tweet_id'' of
               Inl e \<Rightarrow> Inl e
             | Inr i \<Rightarrow>
            (case py_get tweet ''text_preview'' (JStr []) of
               Inl e \<Rightarrow> Inl e
             | Inr txt \<Rightarrow>
            (case dt_sub (utcnow w) posted_at of
               Inl e \<Rightarrow> Inl e
             | Inr age_us \<Rightarrow>
                 Inr (Some \<lparr>t_id = i, t_posted_at = isoformat posted_at, t_text = txt,
                            t_age_hours = of_int age_us / 1000000 / 3600\<rparr>)))))))"

fun tweets_24h :: "world \<Rightarrow> json list \<Rightarrow> exn + tweet24 list" where
  "tweets_24h w [] = Inr []"
| "tweets_24h w (tweet # rest) =
     (case tweet_24h w tweet of
        Inl e \<Rightarrow> Inl e
      | Inr r \<Rightarrow>
          (case tweets_24h w rest of
             Inl e \<Rightarrow> Inl e
           | Inr rs \<Rightarrow> Inr ((case r of None \<Rightarrow> [] | Some t \<Rightarrow> [t]) @ rs)))"

text \<open>\<^verbatim>\<open>min(xs, key=...)\<close> keeps the first of the least elements.\<close>

fun min_by_posted_at :: "tweet24 \<Rightarrow> tweet24 list \<Rightarrow> tweet24" where
  "min_by_posted_at x [] = x"
| "min_by_posted_at x (y # ys) =
     min_by_posted_at (if t_posted_at y < t_posted_at x then y else x) ys"

text \<open>\<^verbatim>\<open>sorted(xs, key=..., reverse=True)\<close>: the list is reversed, sorted stably and
  reversed again, so equal keys keep their order.\<close>

definition sorted_recent_first :: "tweet24 list \<Rightarrow> tweet24 list" where
  "sorted_recent_first xs = rev (sort_key t_posted_at (rev xs))"

text \<open>
  \<^verbatim>\<open>get_latest_rate_limit\<close>: an exhausted cache with a reset time is returned until that
  time; any other cache while its timestamp is less than an hour old. Every exception
  is caught.
\<close>

definition latest_exhausted :: "world \<Rightarrow> json \<Rightarrow> exn + json option" where
  "latest_exhausted w data =
     (case py_getitem data ''reset'' of
        Inl e \<Rightarrow> Inl e
      | Inr r \<Rightarrow>
     (case py_int r of
        Inl e \<Rightarrow> Inl e
      | Inr n \<Rightarrow>
     (case fromtimestamp_utc n of
        Inl e \<Rightarrow> Inl e
      | Inr reset_time \<Rightarrow> Inr (if now_us w < reset_time then Some data else None))))"

definition latest_recent :: "world \<Rightarrow> json \<Rightarrow> exn + json option" where
  "latest_recent w data =
     (case py_getitem data ''timestamp'' of
        Inl e \<Rightarrow> Inl e
      | Inr ts \<Rightarrow>
     (case fromisoformat (iso_parse w) ts of
        Inl e \<Rightarrow> Inl e
      | Inr cached_time \<Rightarrow>
     (case dt_sub (utcnow w) cached_time of
        Inl e \<Rightarrow> Inl e
      | Inr age_us \<Rightarrow>
          Inr (if (of_int age_us :: rat) / 1000000 < 3600 then Some data else None))))"

definition latest_checked :: "world \<Rightarrow> json \<Rightarrow> exn + json option" where
  "latest_checked w data =
     (case py_get data ''remaining'' JNull of
        Inl e \<Rightarrow> Inl e
      | Inr remaining \<Rightarrow>
     (case py_get data ''reset'' JNull of
        Inl e \<Rightarrow> Inl e
      | Inr reset \<Rightarrow>
          if py_eq0 remaining \<and> py_truthy reset then latest_exhausted w data
          else latest_recent w data))"

definition get_latest_rate_limit :: "world \<Rightarrow> json option" where
  "get_latest_rate_limit w =
     (case rate_limit_cache_file w of
        Missing \<Rightarrow> None
      | Unreadable \<Rightarrow> None
      | Content data \<Rightarrow> (case latest_checked w data of Inl e \<Rightarrow> None | Inr r \<Rightarrow> r))"

text \<open>\<^verbatim>\<open>_cleanup_old_tweets\<close>: the log is rewritten without the entries older than 48 hours
  when there are any; on an exception it is left as it is.\<close>

fun keep_48h :: "world \<Rightarrow> json list \<Rightarrow> exn + json list" where
  "keep_48h w [] = Inr []"
| "keep_48h w (tweet # rest) =
     (case py_getitem tweet ''posted_at'' of
        Inl e \<Rightarrow> Inl e
      | Inr p \<Rightarrow>
     (case fromisoformat (iso_parse w) p of
        Inl e \<Rightarrow> Inl e
      | Inr posted_at \<Rightarrow>
     (case since_cutoff w 48 posted_at of
        Inl e \<Rightarrow> Inl e
      | Inr keep \<Rightarrow>
          (case keep_48h w rest of
             Inl e \<Rightarrow> Inl e
           | Inr ks \<Rightarrow> Inr ((if keep then [tweet] else []) @ ks)))))"

definition cleanup_old_tweets :: "world \<Rightarrow> world" where
  "cleanup_old_tweets w =
     (let tweet_log = load_tweet_log w
      in case py_iter tweet_log of
           Inl e \<Rightarrow> w
         | Inr entries \<Rightarrow>
             (case keep_48h w entries of
                Inl e \<Rightarrow> w
              | Inr filtered_log \<Rightarrow>
                  if length filtered_log < py_len tweet_log
                  then w\<lparr>tweet_log_file := Content (JArr filtered_log)\<rparr>
                  else w))"

text \<open>
  The dict \<^verbatim>\<open>get_tweet_count_24h\<close> returns. A key the dict does not have is \<open>None\<close>;
  \<open>error\<close> holds the exception whose text the dict carries.
\<close>

record count_result =
  count :: int
  limit :: int
  remaining :: int
  tweets :: "tweet24 list"
  oldest_tweet_age_hours :: "rat option"
  source :: string
  api_rate_limit :: "json option"
  error :: "exn option"

definition count_error :: "exn \<Rightarrow> count_result" where
  "count_error e =
     \<lparr>count = 0, limit = FREE_TIER_24H_LIMIT, remaining = FREE_TIER_24H_LIMIT, tweets = [],
      oldest_tweet_age_hours = None, source = ''local_log'', api_rate_limit = None,
      error = Some e\<rparr>"

text \<open>\<^verbatim>\<open>get_tweet_count_24h\<close>: the result and the files it leaves.\<close>

definition get_tweet_count_24h :: "world \<Rightarrow> count_result \<times> world" where
  "get_tweet_count_24h w =
     (case py_iter (load_tweet_log w) of
        Inl e \<Rightarrow> (count_error e, w)
      | Inr entries \<Rightarrow>
          (case tweets_24h w entries of
             Inl e \<Rightarrow> (count_error e, w)
           | Inr ts \<Rightarrow>
               (let n = int (length ts);
                    w' = cleanup_old_tweets w
                in (\<lparr>count = n, limit = FREE_TIER_24H_LIMIT,
                     remaining = max 0 (FREE_TIER_24H_LIMIT - n),
                     tweets = sorted_recent_first ts,
                     oldest_tweet_age_hours =
                       (case ts of [] \<Rightarrow> None
                        | t # rest \<Rightarrow> Some (t_age_hours (min_by_posted_at t rest))),
                     source = ''local_log'',
                     api_rate_limit = get_latest_rate_limit w',
                     error = None\<rparr>, w'))))"

text \<open>\<^verbatim>\<open>_save_latest_rate_limit\<close>: the three fields of the given dict and the time of the
  call are written to the cache; without a dict nothing is written.\<close>

definition save_latest_rate_limit :: "world \<Rightarrow> json \<Rightarrow> world" where
  "save_latest_rate_limit w rate_limit_info =
     (case py_get rate_limit_info ''remaining'' JNull of
        Inl e \<Rightarrow> w
      | Inr r \<Rightarrow>
     (case py_get rate_limit_info ''limit'' JNull of
        Inl e \<Rightarrow> w
      | Inr l \<Rightarrow>
     (case py_get rate_limit_info ''reset'' JNull of
        Inl e \<Rightarrow> w
      | Inr t \<Rightarrow>
          w\<lparr>rate_limit_cache_file :=
              Content (JObj [(''remaining'', r), (''limit'', l), (''reset'', t),
                             (''timestamp'', JIso (utcnow w))])\<rparr>)))"

section \<open>The notions of the specification\<close>

text \<open>
  These definitions follow the words of the specification, not the code; the theorems
  compare the code with them. The timestamp of a log entry, when the entry is an
  object whose \<^verbatim>\<open>posted_at\<close> is a timestamp in the form of \<open>isoformat\<close>, as the
  program writes it:
\<close>

definition spec_posted_at :: "json \<Rightarrow> datetime option" where
  "spec_posted_at e =
     (case e of
        JObj kvs \<Rightarrow> (case map_of kvs ''posted_at'' of Some (JIso d) \<Rightarrow> Some d | _ \<Rightarrow> None)
      | _ \<Rightarrow> None)"

text \<open>A well-formed entry of the action log: an object with a \<^verbatim>\<open>tweet_id\<close> and a
  \<^verbatim>\<open>posted_at\<close> that is a valid timestamp in UTC.\<close>

definition spec_well_formed_entry :: "json \<Rightarrow> bool" where
  "spec_well_formed_entry e \<longleftrightarrow>
     (case spec_posted_at e of
        None \<Rightarrow> False
      | Some d \<Rightarrow> valid_datetime d \<and> tzinfo d = Some 0 \<and> py_getitem e ''tweet_id'' \<noteq> Inl KeyError)"

text \<open>The entry lies in the last 24 hours: its timestamp is at or after now - 24h.\<close>

text \<open>The instant of a timestamp with a zone, in microseconds since the epoch.\<close>

definition spec_instant :: "datetime \<Rightarrow> int option" where
  "spec_instant d = (case tzinfo d of None \<Rightarrow> None | Some off \<Rightarrow> Some (wall d - off))"

definition spec_in_window :: "world \<Rightarrow> json \<Rightarrow> bool" where
  "spec_in_window w e \<longleftrightarrow>
     (case spec_posted_at e of
        None \<Rightarrow> False
      | Some d \<Rightarrow>
          (case spec_instant d of
             None \<Rightarrow> False
           | Some t \<Rightarrow> now_us w - 24 * 3600000000 \<le> t))"

text \<open>The entry as the count reports it: its id, the text of its timestamp, its preview
  (empty when it has none) and its age in hours.\<close>

definition spec_report :: "world \<Rightarrow> json \<Rightarrow> tweet24 option" where
  "spec_report w e =
     (case (spec_posted_at e, py_getitem e ''tweet_id'', py_get e ''text_preview'' (JStr [])) of
        (Some d, Inr i, Inr txt) \<Rightarrow>
          (case spec_instant d of
             None \<Rightarrow> None
           | Some t \<Rightarrow>
               Some \<lparr>t_id = i, t_posted_at = isoformat d, t_text = txt,
                     t_age_hours = of_int (now_us w - t) / 3600000000\<rparr>)
      | _ \<Rightarrow> None)"

text \<open>
  An entry whose \<^verbatim>\<open>posted_at\<close> is missing or malformed: the entry is not an object, or
  has no \<^verbatim>\<open>posted_at\<close>, or its \<^verbatim>\<open>posted_at\<close> is not a string, or is a string that the
  library of the call does not read as a timestamp, or is a timestamp without a zone.
\<close>

definition spec_bad_posted_at :: "world \<Rightarrow> json \<Rightarrow> bool" where
  "spec_bad_posted_at w e \<longleftrightarrow>
     (case e of
        JObj kvs \<Rightarrow>
          (case map_of kvs ''posted_at'' of
             None \<Rightarrow> True
           | Some (JIso d) \<Rightarrow> tzinfo d = None
           | Some (JStr s) \<Rightarrow>
               (case iso_parse w s of None \<Rightarrow> True | Some d \<Rightarrow> tzinfo d = None)
           | Some _ \<Rightarrow> True)
      | _ \<Rightarrow> True)"

section \<open>Concrete inputs\<close>

definition mk_datetime ::
  "nat \<Rightarrow> nat \<Rightarrow> nat \<Rightarrow> nat \<Rightarrow> nat \<Rightarrow> nat \<Rightarrow> int option \<Rightarrow> datetime" where
  "mk_datetime y m d h mi s tz =
     \<lparr>year = y, month = m, day = d, hour = h, minute = mi, second = s, microsecond = 0,
      tzinfo = tz\<rparr>"

text \<open>
  Noon UTC on 10 March 2024 in a zone fixed one hour ahead of UTC, no file on disk. The
  files of the inputs below hold one string that is not in the form of \<open>isoformat\<close> and
  is parsed, \<^verbatim>\<open>'yesterday'\<close>, which every version of the library rejects; their POSIX
  timestamps lie in March 2024, which every platform converts.
\<close>

definition world_no_files :: world where
  "world_no_files =
     \<lparr>clock_utc = mk_datetime 2024 3 10 12 0 0 (Some 0),
      clock_local = mk_datetime 2024 3 10 13 0 0 None,
      iso_parse = (\<lambda>s. None),
      localtime = (\<lambda>t. Some (t + 3600000000)),
      cache_file = Missing, tweet_log_file = Missing, rate_limit_cache_file = Missing\<rparr>"

text \<open>The cache as \<^verbatim>\<open>count_tweets_last_24h\<close> writes it, one hour old.\<close>

definition count_cache :: json where
  "count_cache =
     JObj [(''tweet_count_24h'', JInt 3), (''user_id'', JInt 12345),
           (''timestamp'', JIso (mk_datetime 2024 3 10 12 0 0 None)),
           (''source'', JStr ''tweet_count'')]"

definition world_count_cache :: world where
  "world_count_cache = world_no_files\<lparr>cache_file := Content count_cache\<rparr>"

text \<open>One scope of the cache, and a cache from rejection headers with the given remaining
  counts and reset times, written at 08:00 local time, five hours before the call.\<close>

definition scope_json :: "int \<times> int \<times> int \<Rightarrow> json" where
  "scope_json s =
     (case s of (l, r, t) \<Rightarrow>
        JObj [(''limit'', JInt l), (''remaining'', JInt r), (''reset'', JInt t)])"

definition header_cache :: "int \<Rightarrow> int \<Rightarrow> int \<Rightarrow> int \<Rightarrow> json" where
  "header_cache app_remaining app_reset user_remaining user_reset =
     JObj [(''app_24h'', scope_json (17, app_remaining, app_reset)),
           (''user_24h'', scope_json (17, user_remaining, user_reset)),
           (''window_15min'', scope_json (300, 0, 0)),
           (''timestamp'', JIso (mk_datetime 2024 3 10 8 0 0 None)),
           (''source'', JStr ''error_headers'')]"

text \<open>Both scopes exhausted, reset at 11:00 UTC (timestamp 1710068400), one hour before
  the call.\<close>

definition world_reset_passed :: world where
  "world_reset_passed =
     world_no_files\<lparr>cache_file := Content (header_cache 0 1710068400 0 1710068400)\<rparr>"

text \<open>The user scope exhausted, reset at 10:00 UTC (timestamp 1710064800), two hours
  before the call.\<close>

definition world_user_exhausted :: world where
  "world_user_exhausted =
     world_no_files\<lparr>cache_file := Content (header_cache 3 1710064800 0 1710064800)\<rparr>"

text \<open>A remaining count of -1 in the application scope.\<close>

definition world_negative_remaining :: world where
  "world_negative_remaining =
     world_no_files\<lparr>cache_file := Content (header_cache (- 1) 1710082800 5 1710082800)\<rparr>"

text \<open>Three posts left in the application scope and five in the user scope.\<close>

definition world_can_post :: world where
  "world_can_post =
     world_no_files\<lparr>cache_file := Content (header_cache 3 1710082800 5 1710082800)\<rparr>"

text \<open>A log of 17 posts made at 09:00 UTC, three hours before the call.\<close>

definition logged_tweet :: "nat \<Rightarrow> nat \<Rightarrow> json" where
  "logged_tweet dd hh =
     JObj [(''tweet_id'', JStr ''1766''),
           (''posted_at'', JIso (mk_datetime 2024 3 dd hh 0 0 (Some 0))),
           (''text_preview'', JStr ''Lakers vs Celtics'')]"

definition world_17_tweets :: world where
  "world_17_tweets =
     world_no_files\<lparr>tweet_log_file := Content (JArr (replicate 17 (logged_tweet 10 9)))\<rparr>"

text \<open>A log whose second entry has a \<^verbatim>\<open>posted_at\<close> that is no timestamp.\<close>

definition world_bad_entry :: world where
  "world_bad_entry =
     world_no_files\<lparr>tweet_log_file :=
       Content (JArr [logged_tweet 10 9,
                      JObj [(''tweet_id'', JStr ''1767''), (''posted_at'', JStr ''yesterday'')]])\<rparr>"

text \<open>The cache of \<^verbatim>\<open>tweet_counter\<close> with the given remaining count, reset time 15:00 UTC
  (timestamp 1710082800, three hours after the call) and the given time of writing.\<close>

definition latest_cache :: "int \<Rightarrow> datetime \<Rightarrow> json" where
  "latest_cache r written =
     JObj [(''remaining'', JInt r), (''limit'', JInt 17), (''reset'', JInt 1710082800),
           (''timestamp'', JIso written)]"

text \<open>An exhausted cache written 34 hours before the call, and a cache with 5 posts
  left written 2 hours before the call.\<close>

definition world_latest_exhausted :: world where
  "world_latest_exhausted =
     world_no_files\<lparr>rate_limit_cache_file :=
       Content (latest_cache 0 (mk_datetime 2024 3 9 2 0 0 (Some 0)))\<rparr>"

definition world_latest_old :: world where
  "world_latest_old =
     world_no_files\<lparr>rate_limit_cache_file :=
       Content (latest_cache 5 (mk_datetime 2024 3 10 10 0 0 (Some 0)))\<rparr>"

text \<open>Rate limit information that reports 20 remaining posts under a limit of 17, and
  the cache \<^verbatim>\<open>_save_latest_rate_limit\<close> writes from it at the time of the call.\<close>

definition over_limit_info :: json where
  "over_limit_info =
     JObj [(''remaining'', JInt 20), (''limit'', JInt 17), (''reset'', JInt 1710082800)]"

definition over_limit_cache :: json where
  "over_limit_cache =
     JObj [(''remaining'', JInt 20), (''limit'', JInt 17), (''reset'', JInt 1710082800),
           (''timestamp'', JIso (mk_datetime 2024 3 10 12 0 0 (Some 0)))]"

text \<open>A log of one post whose timestamp has a space for the \<^verbatim>\<open>T\<close>, with a library that
  reads it, as Python 3.11 does.\<close>

definition world_space_timestamp :: world where
  "world_space_timestamp =
     world_no_files\<lparr>iso_parse :=
         map_of [(''2024-03-10 09:00:00+00:00'', mk_datetime 2024 3 10 9 0 0 (Some 0))],
       tweet_log_file :=
         Content (JArr [JObj [(''tweet_id'', JStr ''1768''),
                              (''posted_at'', JStr ''2024-03-10 09:00:00+00:00'')]])\<rparr>"

text \<open>A log of three posts: three hours, 25 hours and one hour before the call.\<close>

definition world_three_tweets :: world where
  "world_three_tweets =
     world_no_files\<lparr>tweet_log_file :=
       Content (JArr [logged_tweet 10 9, logged_tweet 9 11, logged_tweet 10 11])\<rparr>"

section \<open>Properties\<close>

subsection \<open>Evaluation\<close>

lemmas py_defs =
  py_getitem_def py_get_def py_truthy_def py_eq0_def num_of_def fromisoformat_def text_of_def

lemmas clock_defs =
  wall_def ymd2ord_def days_before_year_def days_before_month_def is_leap_def dt_sub_def
  utcnow_def localnow_def now_us_def mk_datetime_def

lemmas gate_defs =
  check_can_post_tweet_def get_24h_rate_limits_from_api_def get_cached_rate_limits_def
  log_24h_limit_def check_limits_def exhausted_message_def fromtimestamp_local_def
  timestamp_us_def min_wall_def max_wall_def py_min_def unknown_message_def

lemmas input_defs =
  world_no_files_def header_cache_def scope_json_def

subsection \<open>The gate without and with a cache\<close>

lemma get_cached_rate_limits_no_file:
  "cache_file w = Missing \<Longrightarrow> get_cached_rate_limits w = None"
  by (simp add: get_cached_rate_limits_def)

lemma get_cached_rate_limits_window:
  assumes "cache_file w = Content data"
    and "py_getitem data ''timestamp'' = Inr ts"
    and "fromisoformat (iso_parse w) ts = Inr written"
    and "tzinfo written = None"
  shows "get_cached_rate_limits w =
           (if wall (clock_local w) - wall written < 24 * 3600000000 then Some data else None)"
proof -
  have "((of_int a :: rat) / 1000000 / 3600 < 24) = (a < 24 * 3600000000)" for a :: int
    by (simp add: divide_less_eq)
  with assms show ?thesis
    by (simp add: get_cached_rate_limits_def dt_sub_def localnow_def wall_def)
qed

lemma check_without_cache:
  "get_cached_rate_limits w = None \<Longrightarrow> check_can_post_tweet w = Inr (True, unknown_message)"
  by (simp add: check_can_post_tweet_def get_24h_rate_limits_from_api_def)

lemma cached_is_dict:
  assumes "get_cached_rate_limits w = Some l"
  shows "\<exists>kvs. l = JObj kvs \<and> kvs \<noteq> []"
proof -
  from assms obtain ts where "cache_file w = Content l" and "py_getitem l ''timestamp'' = Inr ts"
    by (auto simp: get_cached_rate_limits_def split: pyfile.splits sum.splits if_splits)
  then show ?thesis
    by (cases l) (auto simp: py_getitem_def split: option.splits)
qed

lemma check_with_cache:
  assumes "get_cached_rate_limits w = Some l"
  shows "check_can_post_tweet w =
     (if py_get l ''source'' JNull = Inr (JStr ''error_headers'') \<or>
         py_get l ''source'' JNull = Inr (JStr ''error_response'')
      then (case log_24h_limit l of Inl e \<Rightarrow> Inl e | Inr u \<Rightarrow> check_limits w l)
      else check_limits w l)"
proof -
  from cached_is_dict [OF assms] obtain kvs where l: "l = JObj kvs" "kvs \<noteq> []" by blast
  then have t: "py_truthy l" by (simp add: py_truthy_def)
  show ?thesis
    using assms t l
    by (simp add: check_can_post_tweet_def get_24h_rate_limits_from_api_def py_get_def
        split: sum.splits option.splits)
qed

lemma exhausted_message_not_allowed:
  "exhausted_message w n s \<noteq> Inr (True, m)"
  by (simp add: exhausted_message_def Let_def split: sum.splits)

lemma py_eq0_num: "num_of v = Some x \<Longrightarrow> py_eq0 v \<longleftrightarrow> x = 0"
  by (cases v) (auto simp: num_of_def py_eq0_def)

lemma py_min_num:
  "num_of a = Some x \<Longrightarrow> num_of b = Some y \<Longrightarrow> py_min a b = Inr (if y < x then b else a)"
  by (cases a; cases b) (auto simp: py_min_def num_of_def)

lemma getitem_get: "py_getitem x k = Inr v \<Longrightarrow> py_get x k d = Inr v"
  by (cases x) (auto simp: py_getitem_def py_get_def split: option.splits)

lemma getitem_dict:
  "py_getitem x k = Inr v \<Longrightarrow> \<exists>kvs. x = JObj kvs \<and> map_of kvs k = Some v"
  by (cases x) (auto simp: py_getitem_def split: option.splits)

subsection \<open>The claims about the admission check\<close>

text \<open>
  On remaining counts that are not negative the check decides as the specification
  does: when the gate obtains limits whose two scopes carry such counts, it returns
  allowed = true exactly when both counts are greater than 0.
\<close>

lemma allowed_iff_remaining_positive:
  assumes "get_cached_rate_limits w = Some limits"
    and "py_getitem limits ''app_24h'' = Inr app"
    and "py_getitem app ''remaining'' = Inr app_remaining"
    and "num_of app_remaining = Some a"
    and "py_getitem limits ''user_24h'' = Inr user"
    and "py_getitem user ''remaining'' = Inr user_remaining"
    and "num_of user_remaining = Some u"
    and "0 \<le> a" and "0 \<le> u"
  shows "(\<exists>msg. check_can_post_tweet w = Inr (True, msg)) \<longleftrightarrow> 0 < a \<and> 0 < u"
proof -
  from getitem_dict [OF assms(3)] obtain akvs where "app = JObj akvs" by blast
  then have "\<exists>l. py_get app ''limit'' (JInt 17) = Inr l"
    by (simp add: py_get_def)
  then have lg: "log_24h_limit limits = Inr ()"
    using assms(2,3) by (auto simp: log_24h_limit_def getitem_get)
  have c: "check_can_post_tweet w = check_limits w limits"
    using check_with_cache [OF assms(1)] lg by simp
  show ?thesis
    using assms(2-9) unfolding c
    by (auto simp: check_limits_def getitem_get py_eq0_num py_min_num exhausted_message_not_allowed)
qed

text \<open>
  C1 fails on the code. The check tests each remaining count with \<^verbatim>\<open>== 0\<close>, where
  \<^verbatim>\<open>format_rate_limit_display\<close> tests it with \<^verbatim>\<open>> 0\<close>: with -1 remaining in the
  application scope and 5 in the user scope, neither of them 0, the check allows the
  post.
\<close>

theorem negative_remaining_allowed:
  "get_cached_rate_limits world_negative_remaining
     = Some (header_cache (- 1) 1710082800 5 1710082800) \<and>
   check_can_post_tweet world_negative_remaining =
     Inr (True, [Lit ''Can post - '', Val (JInt (- 1)),
                 Lit '' tweets remaining in 24h window''])"
  by (simp add: gate_defs py_defs clock_defs input_defs world_negative_remaining_def)

text \<open>
  C3 fails on the code. The cache was written five hours before the call and its reset
  time passed one hour before the call; the check still uses it and denies the post.
\<close>

theorem reset_passed_still_denies:
  "check_can_post_tweet world_reset_passed =
     Inr (False, [Lit ''APP'', Lit '' 24-hour limit exhausted. Resets in '', F1 (- 1),
                  Lit '' hours at '', HMS 1710072000000000])"
  by (simp add: gate_defs py_defs clock_defs input_defs world_reset_passed_def)

text \<open>
  C5. With no cache file the admission check allows the post and says that the rate
  limit status is unknown and that the caller should proceed with caution. The check
  reads neither the action log nor the cache of \<^verbatim>\<open>tweet_counter\<close>, so this holds in
  particular when the log has no entry and that cache is absent too.
\<close>

theorem check_no_data_allows:
  assumes "cache_file w = Missing"
  shows "check_can_post_tweet w =
           Inr (True, [Lit ''Rate limit status unknown - proceed with caution''])"
  using assms
  by (simp add: check_can_post_tweet_def get_24h_rate_limits_from_api_def
      get_cached_rate_limits_no_file unknown_message_def)

theorem check_no_data_allows_witness:
  "cache_file world_no_files = Missing \<and> tweet_log_file world_no_files = Missing \<and>
   rate_limit_cache_file world_no_files = Missing \<and>
   check_can_post_tweet world_no_files =
     Inr (True, [Lit ''Rate limit status unknown - proceed with caution''])"
  using check_no_data_allows [of world_no_files]
  by (simp add: world_no_files_def)

text \<open>
  C6 fails on the code. The cache that \<^verbatim>\<open>count_tweets_last_24h\<close> writes has no scope
  entries; the check takes the remaining count of the application scope to be 0, indexes
  the missing reset time and raises KeyError to its caller.
\<close>

theorem check_raises_key_error:
  "get_cached_rate_limits world_count_cache = Some count_cache \<and>
   check_can_post_tweet world_count_cache = Inl KeyError"
  by (simp add: gate_defs py_defs clock_defs input_defs world_count_cache_def count_cache_def)

text \<open>
  C7 fails on the code. The user scope is exhausted and its reset time passed two hours
  before the call; the message of the check reports -2 hours.
\<close>

theorem negative_hours_reported:
  "check_can_post_tweet world_user_exhausted =
     Inr (False, [Lit ''USER'', Lit '' 24-hour limit exhausted. Resets in '', F1 (- 2),
                  Lit '' hours at '', HMS 1710068400000000])"
  by (simp add: gate_defs py_defs clock_defs input_defs world_user_exhausted_def)

subsection \<open>The count of the local log\<close>

lemma wall_tzinfo [simp]: "wall (d\<lparr>tzinfo := t\<rparr>) = wall d"
  by (simp add: wall_def)

lemma posted_at_dict:
  assumes "spec_posted_at e = Some d"
  shows "\<exists>kvs. e = JObj kvs \<and> map_of kvs ''posted_at'' = Some (JIso d)"
  using assms
  by (cases e) (auto simp: spec_posted_at_def split: option.splits json.splits)

lemma tweet_24h_well_formed:
  assumes "spec_well_formed_entry e"
  shows "tweet_24h w e = Inr (if spec_in_window w e then spec_report w e else None)"
    and "spec_report w e \<noteq> None"
proof -
  from assms obtain d where d: "spec_posted_at e = Some d" "tzinfo d = Some 0"
    and k: "py_getitem e ''tweet_id'' \<noteq> Inl KeyError"
    by (auto simp: spec_well_formed_entry_def split: option.splits)
  from posted_at_dict [OF d(1)] obtain kvs where e: "e = JObj kvs"
    "map_of kvs ''posted_at'' = Some (JIso d)" by blast
  from k e obtain i where i: "map_of kvs ''tweet_id'' = Some i"
    by (auto simp: py_getitem_def split: option.splits)
  show "tweet_24h w e = Inr (if spec_in_window w e then spec_report w e else None)"
    using d e i
    by (simp add: tweet_24h_def spec_in_window_def spec_report_def spec_instant_def py_getitem_def
        py_get_def fromisoformat_def since_cutoff_def dt_sub_def utcnow_def now_us_def)
  show "spec_report w e \<noteq> None"
    using d e i by (simp add: spec_report_def spec_instant_def py_getitem_def py_get_def)
qed

lemma tweets_24h_well_formed:
  assumes "\<forall>e\<in>set es. spec_well_formed_entry e"
  shows "\<exists>ts. tweets_24h w es = Inr ts \<and>
           map Some ts = map (spec_report w) (filter (spec_in_window w) es)"
  using assms
proof (induction es)
  case Nil
  then show ?case by simp
next
  case (Cons e es)
  then obtain ts where ts: "tweets_24h w es = Inr ts"
    "map Some ts = map (spec_report w) (filter (spec_in_window w) es)" by auto
  from Cons.prems have wf: "spec_well_formed_entry e" by simp
  from tweet_24h_well_formed(2) [OF wf, of w] obtain t where t: "spec_report w e = Some t"
    by auto
  show ?case
    using ts t tweet_24h_well_formed(1) [OF wf, of w] by simp
qed

lemma bad_entry_raises:
  assumes "spec_bad_posted_at w e"
  shows "\<exists>x. tweet_24h w e = Inl x"
  using assms
  by (cases e)
    (auto simp: spec_bad_posted_at_def tweet_24h_def py_getitem_def fromisoformat_def
      since_cutoff_def dt_sub_def utcnow_def split: option.splits json.splits)

lemma tweets_24h_raises:
  assumes "e \<in> set es" and "tweet_24h w e = Inl x"
  shows "\<exists>y. tweets_24h w es = Inl y"
  using assms
  by (induction es) (auto split: sum.splits)

lemma count_well_formed:
  assumes "tweet_log_file w = Content (JArr entries)"
    and "\<forall>e\<in>set entries. spec_well_formed_entry e"
  shows "\<exists>ts. map Some ts = map (spec_report w) (filter (spec_in_window w) entries) \<and>
           count (fst (get_tweet_count_24h w)) = int (length ts) \<and>
           remaining (fst (get_tweet_count_24h w)) = max 0 (17 - int (length ts)) \<and>
           limit (fst (get_tweet_count_24h w)) = 17 \<and>
           tweets (fst (get_tweet_count_24h w)) = sorted_recent_first ts \<and>
           source (fst (get_tweet_count_24h w)) = ''local_log'' \<and>
           error (fst (get_tweet_count_24h w)) = None"
proof -
  from tweets_24h_well_formed [OF assms(2), of w] obtain ts where
    ts: "tweets_24h w entries = Inr ts"
    "map Some ts = map (spec_report w) (filter (spec_in_window w) entries)" by blast
  show ?thesis
    using assms(1) ts
    by (intro exI [of _ ts])
      (simp add: get_tweet_count_24h_def load_tweet_log_def py_iter_def Let_def
        FREE_TIER_24H_LIMIT_def)
qed

lemma logged_tweet_well_formed: "spec_well_formed_entry (logged_tweet 10 9)"
  by (simp add: spec_well_formed_entry_def spec_posted_at_def logged_tweet_def mk_datetime_def
      valid_datetime_def days_in_month_def py_getitem_def)

lemma logged_tweet_in_window: "spec_in_window world_17_tweets (logged_tweet 10 9)"
  by (simp add: spec_in_window_def spec_instant_def spec_posted_at_def logged_tweet_def
      clock_defs world_17_tweets_def world_no_files_def)

text \<open>
  C10. When the log is a JSON list and one of its entries has a missing or malformed
  \<^verbatim>\<open>posted_at\<close> (the entry is no object, has no \<^verbatim>\<open>posted_at\<close>, or has one that is no
  string, or a string the library does not read as a timestamp, or a timestamp without
  a zone), \<^verbatim>\<open>get_tweet_count_24h\<close> returns the error result: count 0, remaining 17, no
  tweets and an error field, whatever the other entries are; it does not raise, and it
  leaves the files as they were.
\<close>

theorem bad_timestamp_discards_log:
  assumes "tweet_log_file w = Content (JArr entries)"
    and "e \<in> set entries"
    and "spec_bad_posted_at w e"
  shows "\<exists>x. get_tweet_count_24h w =
           (\<lparr>count = 0, limit = 17, remaining = 17, tweets = [],
             oldest_tweet_age_hours = None, source = ''local_log'', api_rate_limit = None,
             error = Some x\<rparr>, w)"
proof -
  from bad_entry_raises [OF assms(3)] obtain x where "tweet_24h w e = Inl x" by blast
  from tweets_24h_raises [OF assms(2) this] obtain y where "tweets_24h w entries = Inl y"
    by blast
  with assms(1) have "get_tweet_count_24h w = (count_error y, w)"
    by (simp add: get_tweet_count_24h_def load_tweet_log_def py_iter_def)
  then show ?thesis
    by (auto simp: count_error_def FREE_TIER_24H_LIMIT_def)
qed

theorem bad_timestamp_discards_log_witness:
  "\<exists>x. get_tweet_count_24h world_bad_entry =
     (\<lparr>count = 0, limit = 17, remaining = 17, tweets = [],
       oldest_tweet_age_hours = None, source = ''local_log'', api_rate_limit = None,
       error = Some x\<rparr>, world_bad_entry)"
proof -
  let ?bad = "JObj [(''tweet_id'', JStr ''1767''), (''posted_at'', JStr ''yesterday'')]"
  have 1: "tweet_log_file world_bad_entry = Content (JArr [logged_tweet 10 9, ?bad])"
    by (simp add: world_bad_entry_def world_no_files_def)
  have 2: "?bad \<in> set [logged_tweet 10 9, ?bad]"
    by simp
  have 3: "spec_bad_posted_at world_bad_entry ?bad"
    by (simp add: spec_bad_posted_at_def world_bad_entry_def world_no_files_def)
  from bad_timestamp_discards_log [OF 1 2 3] show ?thesis .
qed

text \<open>
  An entry whose timestamp is written with a space for the \<^verbatim>\<open>T\<close> is not malformed for a
  library that reads it: the entry is counted.
\<close>

lemma space_timestamp_counted:
  "count (fst (get_tweet_count_24h world_space_timestamp)) = 1 \<and>
   remaining (fst (get_tweet_count_24h world_space_timestamp)) = 16 \<and>
   error (fst (get_tweet_count_24h world_space_timestamp)) = None"
  by (simp add: get_tweet_count_24h_def load_tweet_log_def py_iter_def tweet_24h_def
      since_cutoff_def py_defs clock_defs world_space_timestamp_def world_no_files_def
      FREE_TIER_24H_LIMIT_def Let_def)

text \<open>
  C2, as amended. When no remote snapshot is available and the log holds 17 well-formed
  entries of the last 24 hours, the local count is 17 with 0 remaining, derived from the
  local log, but the admission check does not consult it: it allows the post with the
  message that the status is unknown.
\<close>

theorem full_log_not_consulted:
  assumes "get_cached_rate_limits w = None"
    and "tweet_log_file w = Content (JArr entries)"
    and "\<forall>e\<in>set entries. spec_well_formed_entry e"
    and "length (filter (spec_in_window w) entries) = 17"
  shows "check_can_post_tweet w =
           Inr (True, [Lit ''Rate limit status unknown - proceed with caution'']) \<and>
         count (fst (get_tweet_count_24h w)) = 17 \<and>
         remaining (fst (get_tweet_count_24h w)) = 0 \<and>
         source (fst (get_tweet_count_24h w)) = ''local_log''"
proof -
  from count_well_formed [OF assms(2,3)] obtain ts where
    ts: "map Some ts = map (spec_report w) (filter (spec_in_window w) entries)"
    and r: "count (fst (get_tweet_count_24h w)) = int (length ts)"
    "remaining (fst (get_tweet_count_24h w)) = max 0 (17 - int (length ts))"
    "source (fst (get_tweet_count_24h w)) = ''local_log''" by blast
  from ts have "length (map Some ts) = length (filter (spec_in_window w) entries)"
    by simp
  with assms(4) have "length ts = 17" by simp
  with r check_without_cache [OF assms(1)] show ?thesis
    by (simp add: unknown_message_def)
qed

theorem full_log_not_consulted_witness:
  "check_can_post_tweet world_17_tweets =
     Inr (True, [Lit ''Rate limit status unknown - proceed with caution'']) \<and>
   count (fst (get_tweet_count_24h world_17_tweets)) = 17 \<and>
   remaining (fst (get_tweet_count_24h world_17_tweets)) = 0 \<and>
   source (fst (get_tweet_count_24h world_17_tweets)) = ''local_log''"
proof -
  have 1: "get_cached_rate_limits world_17_tweets = None"
    by (simp add: get_cached_rate_limits_def world_17_tweets_def world_no_files_def)
  have 2: "tweet_log_file world_17_tweets = Content (JArr (replicate 17 (logged_tweet 10 9)))"
    by (simp add: world_17_tweets_def world_no_files_def)
  have 3: "\<forall>e\<in>set (replicate 17 (logged_tweet 10 9)). spec_well_formed_entry e"
    by (simp add: logged_tweet_well_formed)
  have 4: "length (filter (spec_in_window world_17_tweets) (replicate 17 (logged_tweet 10 9))) = 17"
    by (simp add: logged_tweet_in_window)
  from full_log_not_consulted [OF 1 2 3 4] show ?thesis .
qed

text \<open>
  C2 as stated fails: with 17 entries of the last 24 hours in the log and no cache, the
  check returns allowed = true.
\<close>

theorem full_log_still_allowed:
  "get_cached_rate_limits world_17_tweets = None \<and>
   tweet_log_file world_17_tweets = Content (JArr (replicate 17 (logged_tweet 10 9))) \<and>
   spec_well_formed_entry (logged_tweet 10 9) \<and>
   spec_in_window world_17_tweets (logged_tweet 10 9) \<and>
   check_can_post_tweet world_17_tweets =
     Inr (True, [Lit ''Rate limit status unknown - proceed with caution''])"
  using logged_tweet_well_formed logged_tweet_in_window
  by (simp add: check_can_post_tweet_def get_24h_rate_limits_from_api_def
      get_cached_rate_limits_def unknown_message_def world_17_tweets_def world_no_files_def)

subsection \<open>The two loaders of a cache\<close>

lemma age_bound: "((of_int a :: rat) / 1000000 < 3600) = (a < 3600000000)"
  by (simp add: divide_less_eq)

lemma latest_exhausted_until_reset:
  assumes "rate_limit_cache_file w = Content data"
    and "py_getitem data ''remaining'' = Inr r"
    and "num_of r = Some 0"
    and "py_getitem data ''reset'' = Inr t"
    and "py_truthy t"
    and "py_int t = Inr n"
    and "fromtimestamp_utc n = Inr reset_time"
  shows "get_latest_rate_limit w = (if now_us w < reset_time then Some data else None)"
  using assms
  by (simp add: get_latest_rate_limit_def latest_checked_def latest_exhausted_def
      getitem_get py_eq0_num)

lemma latest_positive_one_hour:
  assumes "rate_limit_cache_file w = Content data"
    and "py_getitem data ''remaining'' = Inr r"
    and "num_of r = Some x"
    and "0 < x"
  shows "get_latest_rate_limit w =
           (if \<exists>ts ct off. py_getitem data ''timestamp'' = Inr ts \<and>
                 fromisoformat (iso_parse w) ts = Inr ct \<and> tzinfo ct = Some off \<and>
                 now_us w - (wall ct - off) < 3600000000
            then Some data else None)"
proof -
  from getitem_dict [OF assms(2)] obtain kvs where d: "data = JObj kvs" by blast
  then have "\<exists>v. py_get data ''reset'' JNull = Inr v"
    by (simp add: py_get_def)
  with assms have c: "latest_checked w data = latest_recent w data"
    by (auto simp: latest_checked_def getitem_get py_eq0_num)
  show ?thesis
  proof (cases "py_getitem data ''timestamp''")
    case (Inl e)
    then show ?thesis
      using assms(1) c by (simp add: get_latest_rate_limit_def latest_recent_def)
  next
    case ts: (Inr ts)
    show ?thesis
    proof (cases "fromisoformat (iso_parse w) ts")
      case (Inl e)
      then show ?thesis
        using assms(1) c ts by (simp add: get_latest_rate_limit_def latest_recent_def)
    next
      case ct: (Inr ct)
      then show ?thesis
        using assms(1) c ts
        by (cases "tzinfo ct")
          (simp_all add: get_latest_rate_limit_def latest_recent_def dt_sub_def utcnow_def
            now_us_def age_bound)
    qed
  qed
qed

text \<open>
  C4, as amended. The two loaders differ. \<^verbatim>\<open>get_latest_rate_limit\<close> applies asymmetric
  staleness: a cache whose remaining count is 0 and that has a reset time is returned
  exactly while the call is before the reset time, whatever its age, and a cache whose
  remaining count is greater than 0 is returned exactly while its timestamp is less
  than one hour old. \<^verbatim>\<open>get_cached_rate_limits\<close>, the loader the admission check reads,
  returns a cache exactly while its timestamp is less than 24 hours old, whatever its
  remaining count and its reset time.
\<close>

theorem staleness_of_the_two_loaders:
  "(rate_limit_cache_file w = Content data \<and> py_getitem data ''remaining'' = Inr r \<and>
      num_of r = Some 0 \<and> py_getitem data ''reset'' = Inr t \<and> py_truthy t \<and>
      py_int t = Inr n \<and> fromtimestamp_utc n = Inr reset_time
    \<longrightarrow> get_latest_rate_limit w = (if now_us w < reset_time then Some data else None)) \<and>
   (rate_limit_cache_file w = Content data \<and> py_getitem data ''remaining'' = Inr r \<and>
      num_of r = Some x \<and> 0 < x
    \<longrightarrow> get_latest_rate_limit w =
          (if \<exists>ts ct off. py_getitem data ''timestamp'' = Inr ts \<and>
                fromisoformat (iso_parse w) ts = Inr ct \<and> tzinfo ct = Some off \<and>
                now_us w - (wall ct - off) < 3600000000
           then Some data else None)) \<and>
   (cache_file w = Content cached \<and> py_getitem cached ''timestamp'' = Inr cts \<and>
      fromisoformat (iso_parse w) cts = Inr written \<and> tzinfo written = None
    \<longrightarrow> get_cached_rate_limits w =
          (if wall (clock_local w) - wall written < 24 * 3600000000 then Some cached
           else None))"
  using latest_exhausted_until_reset [of w data r t n reset_time]
    latest_positive_one_hour [of w data r x]
    get_cached_rate_limits_window [of w cached cts written]
  by blast

theorem staleness_of_the_two_loaders_witness:
  "get_latest_rate_limit world_latest_exhausted
     = Some (latest_cache 0 (mk_datetime 2024 3 9 2 0 0 (Some 0))) \<and>
   get_latest_rate_limit world_latest_old = None \<and>
   get_cached_rate_limits world_can_post = Some (header_cache 3 1710082800 5 1710082800)"
proof -
  let ?old = "mk_datetime 2024 3 9 2 0 0 (Some 0)"
  let ?new = "mk_datetime 2024 3 10 10 0 0 (Some 0)"
  let ?written = "mk_datetime 2024 3 10 8 0 0 None"
  let ?c = "header_cache 3 1710082800 5 1710082800"
  have e: "rate_limit_cache_file world_latest_exhausted = Content (latest_cache 0 ?old) \<and>
      py_getitem (latest_cache 0 ?old) ''remaining'' = Inr (JInt 0) \<and>
      num_of (JInt 0) = Some 0 \<and>
      py_getitem (latest_cache 0 ?old) ''reset'' = Inr (JInt 1710082800) \<and>
      py_truthy (JInt 1710082800) \<and> py_int (JInt 1710082800) = Inr 1710082800 \<and>
      fromtimestamp_utc 1710082800 = Inr 1710082800000000"
    by (simp add: input_defs world_latest_exhausted_def latest_cache_def py_defs
        py_int_def fromtimestamp_utc_def min_wall_def max_wall_def)
  have e': "now_us world_latest_exhausted < 1710082800000000"
    by (simp add: input_defs world_latest_exhausted_def clock_defs)
  have o: "rate_limit_cache_file world_latest_old = Content (latest_cache 5 ?new) \<and>
      py_getitem (latest_cache 5 ?new) ''remaining'' = Inr (JInt 5) \<and>
      num_of (JInt 5) = Some 5 \<and> (0::rat) < 5"
    by (simp add: input_defs world_latest_old_def latest_cache_def py_defs)
  have o': "\<not> (\<exists>ts ct off. py_getitem (latest_cache 5 ?new) ''timestamp'' = Inr ts \<and>
      fromisoformat (iso_parse world_latest_old) ts = Inr ct \<and> tzinfo ct = Some off \<and>
      now_us world_latest_old - (wall ct - off) < 3600000000)"
    by (auto simp: input_defs world_latest_old_def latest_cache_def py_defs clock_defs)
  have g: "cache_file world_can_post = Content ?c \<and>
      py_getitem ?c ''timestamp'' = Inr (JIso ?written) \<and>
      fromisoformat (iso_parse world_can_post) (JIso ?written) = Inr ?written \<and>
      tzinfo ?written = None"
    by (simp add: input_defs world_can_post_def py_defs mk_datetime_def)
  have g': "wall (clock_local world_can_post) - wall ?written < 24 * 3600000000"
    by (simp add: input_defs world_can_post_def clock_defs)
  from staleness_of_the_two_loaders [where w = world_latest_exhausted
      and data = "latest_cache 0 ?old" and r = "JInt 0" and t = "JInt 1710082800"
      and n = 1710082800 and reset_time = 1710082800000000] e e'
  have 1: "get_latest_rate_limit world_latest_exhausted = Some (latest_cache 0 ?old)"
    by simp
  from staleness_of_the_two_loaders [where w = world_latest_old
      and data = "latest_cache 5 ?new" and r = "JInt 5" and x = 5] o o'
  have 2: "get_latest_rate_limit world_latest_old = None"
    by simp
  from staleness_of_the_two_loaders [where w = world_can_post and cached = ?c
      and cts = "JIso ?written" and written = ?written] g g'
  have 3: "get_cached_rate_limits world_can_post = Some ?c"
    by simp
  from 1 2 3 show ?thesis by simp
qed

text \<open>
  C4 as stated fails for the loader of the admission check: a cache with 3 and 5 posts
  remaining whose timestamp is 5 hours old is returned, and the check allows the post on
  it.
\<close>

theorem old_snapshot_still_returned:
  "wall (clock_local world_can_post) - wall (mk_datetime 2024 3 10 8 0 0 None)
     = 5 * 3600000000 \<and>
   get_cached_rate_limits world_can_post = Some (header_cache 3 1710082800 5 1710082800) \<and>
   check_can_post_tweet world_can_post =
     Inr (True, [Lit ''Can post - '', Val (JInt 3),
                 Lit '' tweets remaining in 24h window''])"
  by (simp add: gate_defs py_defs clock_defs input_defs world_can_post_def)

subsection \<open>The counts of a snapshot\<close>

lemma count_remaining_bounds:
  "0 \<le> remaining (fst (get_tweet_count_24h w)) \<and>
   remaining (fst (get_tweet_count_24h w)) \<le> limit (fst (get_tweet_count_24h w))"
  by (simp add: get_tweet_count_24h_def count_error_def FREE_TIER_24H_LIMIT_def Let_def
      split: sum.splits)

lemma saved_counts_as_given:
  assumes "py_get info ''remaining'' JNull = Inr r" and "py_get info ''limit'' JNull = Inr l"
  shows "\<exists>d. rate_limit_cache_file (save_latest_rate_limit w info) = Content d \<and>
           py_getitem d ''remaining'' = Inr r \<and> py_getitem d ''limit'' = Inr l"
proof -
  from assms obtain kvs where "info = JObj kvs"
    by (cases info) (auto simp: py_get_def)
  with assms show ?thesis
    by (auto simp: save_latest_rate_limit_def py_get_def py_getitem_def)
qed

lemma live_limits_are_the_cache:
  assumes "get_24h_rate_limits_from_api w = Inr (Some limits)"
  shows "get_cached_rate_limits w = Some limits"
  using assms
  by (auto simp: get_24h_rate_limits_from_api_def split: option.splits if_splits sum.splits)

text \<open>
  C8, as amended. No snapshot is clamped or rejected when it is built. The cache
  written by \<^verbatim>\<open>_save_latest_rate_limit\<close> carries the remaining count and the limit it was
  given; \<^verbatim>\<open>get_24h_rate_limits_from_api\<close> builds no snapshot from a rejection, what it
  returns is the cache as it was loaded; the count derived from the local log has a
  remaining count between 0 and its limit.
\<close>

theorem snapshot_counts_as_received:
  "(py_get info ''remaining'' JNull = Inr r \<and> py_get info ''limit'' JNull = Inr l \<longrightarrow>
      (\<exists>d. rate_limit_cache_file (save_latest_rate_limit w info) = Content d \<and>
           py_getitem d ''remaining'' = Inr r \<and> py_getitem d ''limit'' = Inr l)) \<and>
   (get_24h_rate_limits_from_api w = Inr (Some limits) \<longrightarrow>
      get_cached_rate_limits w = Some limits) \<and>
   0 \<le> remaining (fst (get_tweet_count_24h w)) \<and>
   remaining (fst (get_tweet_count_24h w)) \<le> limit (fst (get_tweet_count_24h w))"
  using saved_counts_as_given [of info r l w] live_limits_are_the_cache [of w limits]
    count_remaining_bounds [of w]
  by blast

theorem snapshot_counts_as_received_witness:
  "(\<exists>d. rate_limit_cache_file (save_latest_rate_limit world_no_files over_limit_info)
          = Content d \<and>
        py_getitem d ''remaining'' = Inr (JInt 20) \<and> py_getitem d ''limit'' = Inr (JInt 17)) \<and>
   get_cached_rate_limits world_can_post = Some (header_cache 3 1710082800 5 1710082800)"
proof -
  have i: "py_get over_limit_info ''remaining'' JNull = Inr (JInt 20) \<and>
           py_get over_limit_info ''limit'' JNull = Inr (JInt 17)"
    by (simp add: over_limit_info_def py_get_def)
  have a: "get_24h_rate_limits_from_api world_can_post
             = Inr (Some (header_cache 3 1710082800 5 1710082800))"
    by (simp add: gate_defs py_defs clock_defs input_defs world_can_post_def)
  from snapshot_counts_as_received [where info = over_limit_info and r = "JInt 20"
      and l = "JInt 17" and w = world_no_files] i
  have 1: "\<exists>d. rate_limit_cache_file (save_latest_rate_limit world_no_files over_limit_info)
          = Content d \<and>
        py_getitem d ''remaining'' = Inr (JInt 20) \<and> py_getitem d ''limit'' = Inr (JInt 17)"
    by blast
  from snapshot_counts_as_received [where w = world_can_post
      and limits = "header_cache 3 1710082800 5 1710082800"] a
  have 2: "get_cached_rate_limits world_can_post
             = Some (header_cache 3 1710082800 5 1710082800)"
    by blast
  from 1 2 show ?thesis by blast
qed

text \<open>
  C8 as stated fails: given 20 remaining posts under a limit of 17,
  \<^verbatim>\<open>_save_latest_rate_limit\<close> writes a cache with remaining 20 and limit 17.
\<close>

theorem saved_cache_exceeds_limit:
  "save_latest_rate_limit world_no_files over_limit_info =
     world_no_files\<lparr>rate_limit_cache_file := Content over_limit_cache\<rparr> \<and>
   py_getitem over_limit_cache ''remaining'' = Inr (JInt 20) \<and>
   py_getitem over_limit_cache ''limit'' = Inr (JInt 17)"
  by (simp add: save_latest_rate_limit_def over_limit_info_def over_limit_cache_def py_get_def
      py_getitem_def utcnow_def world_no_files_def mk_datetime_def)

subsection \<open>The order of timestamps and of their texts\<close>

lemma less_append_same_length:
  fixes a b :: "'a::linorder list"
  assumes "length a = length b"
  shows "(a @ x < b @ y) \<longleftrightarrow> (a < b \<or> a = b \<and> x < y)"
  using assms by (induction a b rule: list_induct2) auto

lemma digit_char_less: "digit_char a < digit_char b \<longleftrightarrow> a mod 10 < b mod 10"
proof -
  have "(48 + a mod 10) mod 256 = 48 + a mod 10" "(48 + b mod 10) mod 256 = 48 + b mod 10"
    by simp_all
  then show ?thesis
    by (simp add: digit_char_def less_char_def)
qed

lemma digit_char_eq: "digit_char a = digit_char b \<longleftrightarrow> a mod 10 = b mod 10"
proof -
  have "digit_char a = digit_char b \<longleftrightarrow>
          \<not> digit_char a < digit_char b \<and> \<not> digit_char b < digit_char a"
    by auto
  then show ?thesis
    unfolding digit_char_less by auto
qed

lemma radix10_eq:
  fixes p q r s :: nat
  assumes "r < 10" and "s < 10"
  shows "(p = q \<and> r = s) \<longleftrightarrow> 10 * p + r = 10 * q + s"
  using assms by arith

lemma radix10_less:
  fixes p q r s :: nat
  assumes "r < 10" and "s < 10"
  shows "(p < q \<or> p = q \<and> r < s) \<longleftrightarrow> 10 * p + r < 10 * q + s"
  using assms by arith

lemma length_pad [simp]: "length (pad k n) = k"
  by (induction k arbitrary: n) simp_all

lemma mod_pow_Suc: "(n::nat) mod 10 ^ Suc k = 10 * (n div 10 mod 10 ^ k) + n mod 10"
  by (simp add: mod_mult2_eq)

lemma pad_eq: "pad k n = pad k m \<longleftrightarrow> n mod 10 ^ k = m mod 10 ^ k"
proof (induction k arbitrary: n m)
  case 0
  then show ?case by simp
next
  case (Suc k)
  have "pad (Suc k) n = pad (Suc k) m \<longleftrightarrow>
          pad k (n div 10) = pad k (m div 10) \<and> digit_char n = digit_char m"
    by simp
  also have "\<dots> \<longleftrightarrow> n div 10 mod 10 ^ k = m div 10 mod 10 ^ k \<and> n mod 10 = m mod 10"
    by (simp add: Suc.IH digit_char_eq)
  also have "\<dots> \<longleftrightarrow> n mod 10 ^ Suc k = m mod 10 ^ Suc k"
    unfolding mod_pow_Suc by (rule radix10_eq) simp_all
  finally show ?case .
qed

lemma pad_less: "pad k n < pad k m \<longleftrightarrow> n mod 10 ^ k < m mod 10 ^ k"
proof (induction k arbitrary: n m)
  case 0
  then show ?case by simp
next
  case (Suc k)
  have "pad (Suc k) n < pad (Suc k) m \<longleftrightarrow>
          pad k (n div 10) < pad k (m div 10) \<or>
          pad k (n div 10) = pad k (m div 10) \<and> digit_char n < digit_char m"
    by (simp add: less_append_same_length)
  also have "\<dots> \<longleftrightarrow> n div 10 mod 10 ^ k < m div 10 mod 10 ^ k \<or>
          n div 10 mod 10 ^ k = m div 10 mod 10 ^ k \<and> n mod 10 < m mod 10"
    by (simp add: Suc.IH pad_eq digit_char_less)
  also have "\<dots> \<longleftrightarrow> n mod 10 ^ Suc k < m mod 10 ^ Suc k"
    unfolding mod_pow_Suc by (rule radix10_less) simp_all
  finally show ?case .
qed

lemma month_cases:
  assumes "1 \<le> m" and "m \<le> 12"
  shows "m = 1 \<or> m = 2 \<or> m = 3 \<or> m = 4 \<or> m = 5 \<or> m = 6 \<or> m = 7 \<or> m = 8 \<or> m = 9 \<or>
         m = 10 \<or> m = 11 \<or> m = (12::nat)"
  using assms by arith

lemma days_in_month_le:
  assumes "1 \<le> m" and "m \<le> 12"
  shows "days_in_month y m \<le> 31"
  using month_cases [OF assms] by (auto simp: days_in_month_def)

lemma month_end_le:
  assumes "1 \<le> m" and "m < m'" and "m' \<le> 12"
  shows "days_before_month y m + days_in_month y m \<le> days_before_month y m'"
proof -
  from assms have "1 \<le> m'" "m \<le> 12" by simp_all
  from month_cases [OF assms(1) this(2)] month_cases [OF this(1) assms(3)] assms(2)
  show ?thesis
    by (auto simp: days_before_month_def days_in_month_def)
qed

lemma year_end:
  assumes "1 \<le> m" and "m \<le> 12"
  shows "days_before_month y m + days_in_month y m \<le> (if is_leap y then 366 else 365)"
  using month_cases [OF assms] by (auto simp: days_before_month_def days_in_month_def)

lemma year_step_arith:
  fixes z A B C a b c :: nat
  assumes "B \<le> A" and "b \<le> a"
  shows "Suc z * 365 + (A + a) - (B + b) + (C + c) = z * 365 + A - B + C + (365 + (a - b) + c)"
  using assms by simp

lemma days_before_year_Suc:
  assumes "1 \<le> y"
  shows "days_before_year (Suc y) = days_before_year y + (if is_leap y then 366 else 365)"
proof -
  obtain z where y: "y = Suc z"
    using assms by (cases y) auto
  define a :: nat where "a = (if Suc z mod 4 = 0 then 1 else 0)"
  define b :: nat where "b = (if Suc z mod 100 = 0 then 1 else 0)"
  define c :: nat where "c = (if Suc z mod 400 = 0 then 1 else 0)"
  have d: "Suc z div 4 = z div 4 + a" "Suc z div 100 = z div 100 + b"
    "Suc z div 400 = z div 400 + c"
    by (simp_all add: a_def b_def c_def div_Suc)
  have le: "z div 100 \<le> z div 4"
    by (rule div_le_mono2) simp_all
  have m1: "Suc z mod 4 = 0" if "Suc z mod 100 = 0"
  proof -
    from that have "100 dvd Suc z" by (simp add: mod_eq_0_iff_dvd)
    moreover have "(4::nat) dvd 100" by simp
    ultimately have "4 dvd Suc z" by (rule dvd_trans [rotated])
    then show ?thesis by (simp add: mod_eq_0_iff_dvd)
  qed
  have m2: "Suc z mod 100 = 0" if "Suc z mod 400 = 0"
  proof -
    from that have "400 dvd Suc z" by (simp add: mod_eq_0_iff_dvd)
    moreover have "(100::nat) dvd 400" by simp
    ultimately have "100 dvd Suc z" by (rule dvd_trans [rotated])
    then show ?thesis by (simp add: mod_eq_0_iff_dvd)
  qed
  have ba: "b \<le> a"
    using m1 by (simp add: a_def b_def)
  have leap: "365 + (a - b) + c = (if is_leap y then 366 else 365)"
    using m1 m2 by (auto simp: a_def b_def c_def is_leap_def y)
  have "days_before_year (Suc y) =
          Suc z * 365 + (z div 4 + a) - (z div 100 + b) + (z div 400 + c)"
    by (simp only: days_before_year_def y d diff_Suc_1)
  also have "\<dots> = z * 365 + z div 4 - z div 100 + z div 400 + (365 + (a - b) + c)"
    by (rule year_step_arith [OF le ba])
  also have "\<dots> = days_before_year y + (if is_leap y then 366 else 365)"
    by (simp only: leap) (simp add: days_before_year_def y)
  finally show ?thesis .
qed

lemma days_before_year_mono:
  assumes "1 \<le> y" and "y < y'"
  shows "days_before_year y + (if is_leap y then 366 else 365) \<le> days_before_year y'"
proof -
  have step: "days_before_year n \<le> days_before_year (Suc n)" for n
  proof (cases n)
    case 0
    then show ?thesis by (simp add: days_before_year_def)
  next
    case (Suc k)
    then show ?thesis using days_before_year_Suc [of n] by simp
  qed
  from assms have "Suc y \<le> y'" by simp
  then have "days_before_year (Suc y) \<le> days_before_year y'"
    by (rule lift_Suc_mono_le [of days_before_year, OF step])
  with days_before_year_Suc [OF assms(1)] show ?thesis by simp
qed

lemma day_of_year_bounds:
  assumes "1 \<le> m" and "m \<le> 12" and "1 \<le> d" and "d \<le> days_in_month y m"
  shows "days_before_month y m + d \<le> (if is_leap y then 366 else 365)"
  using year_end [OF assms(1,2), of y] assms(4) by (simp split: if_splits)

lemma ymd2ord_less:
  assumes "1 \<le> y1" "1 \<le> m1" "m1 \<le> 12" "1 \<le> d1" "d1 \<le> days_in_month y1 m1"
    and "1 \<le> y2" "1 \<le> m2" "m2 \<le> 12" "1 \<le> d2" "d2 \<le> days_in_month y2 m2"
  shows "ymd2ord y1 m1 d1 < ymd2ord y2 m2 d2 \<longleftrightarrow>
           y1 < y2 \<or> y1 = y2 \<and> (m1 < m2 \<or> m1 = m2 \<and> d1 < d2)"
proof -
  have up: "ymd2ord y m d < ymd2ord y' m' d'"
    if "1 \<le> y" "1 \<le> m" "m \<le> 12" "1 \<le> d" "d \<le> days_in_month y m"
      "1 \<le> m'" "m' \<le> 12" "1 \<le> d'"
      "y < y' \<or> y = y' \<and> (m < m' \<or> m = m' \<and> d < d')" for y m d y' m' d'
  proof -
    from that(9) consider "y < y'" | "y = y'" "m < m'" | "y = y'" "m = m'" "d < d'"
      by blast
    then show ?thesis
    proof cases
      case 1
      from days_before_year_mono [OF that(1) 1] day_of_year_bounds [OF that(2-5)] that(8)
      show ?thesis by (simp add: ymd2ord_def split: if_splits)
    next
      case 2
      from month_end_le [OF that(2) 2(2) that(7), of y] that(5,8) 2(1)
      show ?thesis by (simp add: ymd2ord_def)
    next
      case 3
      then show ?thesis by (simp add: ymd2ord_def)
    qed
  qed
  show ?thesis
  proof
    assume l: "ymd2ord y1 m1 d1 < ymd2ord y2 m2 d2"
    show "y1 < y2 \<or> y1 = y2 \<and> (m1 < m2 \<or> m1 = m2 \<and> d1 < d2)"
    proof (rule ccontr)
      assume "\<not> ?thesis"
      then consider "y2 < y1 \<or> y2 = y1 \<and> (m2 < m1 \<or> m2 = m1 \<and> d2 < d1)"
        | "y1 = y2 \<and> m1 = m2 \<and> d1 = d2"
        by fastforce
      then show False
      proof cases
        case 1
        from up [OF assms(6-10) assms(2,3,4) 1] l show False by simp
      next
        case 2
        with l show False by simp
      qed
    qed
  next
    assume "y1 < y2 \<or> y1 = y2 \<and> (m1 < m2 \<or> m1 = m2 \<and> d1 < d2)"
    from up [OF assms(1-5) assms(7,8,9) this] show "ymd2ord y1 m1 d1 < ymd2ord y2 m2 d2" .
  qed
qed

lemma radix_less:
  fixes a1 a2 r1 r2 B :: int
  assumes "0 \<le> r1" "r1 < B" "0 \<le> r2" "r2 < B"
  shows "a1 * B + r1 < a2 * B + r2 \<longleftrightarrow> a1 < a2 \<or> a1 = a2 \<and> r1 < r2"
proof -
  have up: "x * B + r < x' * B + r'" if "x < x'" "r < B" "0 \<le> r'" for x x' r r' :: int
  proof -
    from that(1) have "x + 1 \<le> x'" by simp
    moreover from assms have "0 \<le> B" by simp
    ultimately have "(x + 1) * B \<le> x' * B" by (rule mult_right_mono)
    with that(2,3) show ?thesis by (simp add: algebra_simps)
  qed
  consider "a1 < a2" | "a1 = a2" | "a2 < a1" by linarith
  then show ?thesis
  proof cases
    case 1
    with up [OF 1 assms(2,3)] show ?thesis by simp
  next
    case 2
    then show ?thesis by simp
  next
    case 3
    with up [OF 3 assms(4,1)] show ?thesis by simp
  qed
qed

lemma radix_eq:
  fixes a1 a2 r1 r2 B :: int
  assumes "0 \<le> r1" "r1 < B" "0 \<le> r2" "r2 < B"
  shows "a1 * B + r1 = a2 * B + r2 \<longleftrightarrow> a1 = a2 \<and> r1 = r2"
proof -
  have "a1 * B + r1 = a2 * B + r2 \<longleftrightarrow>
          \<not> a1 * B + r1 < a2 * B + r2 \<and> \<not> a2 * B + r2 < a1 * B + r1"
    by auto
  also have "\<dots> \<longleftrightarrow> a1 = a2 \<and> r1 = r2"
    unfolding radix_less [OF assms] radix_less [OF assms(3,4,1,2)] by auto
  finally show ?thesis .
qed

lemma ordinal_shift:
  "(int x - 719163 < int y - 719163) \<longleftrightarrow> x < y"
  "(int x - 719163 = int y - 719163) \<longleftrightarrow> x = y"
  by simp_all

lemma ord_less:
  assumes "valid_datetime a" and "valid_datetime b"
  shows "ymd2ord (year a) (month a) (day a) < ymd2ord (year b) (month b) (day b) \<longleftrightarrow>
      year a < year b \<or> year a = year b \<and>
      (month a < month b \<or> month a = month b \<and> day a < day b)"
proof -
  from assms have da: "1 \<le> year a" "1 \<le> month a" "month a \<le> 12" "1 \<le> day a"
      "day a \<le> days_in_month (year a) (month a)"
    and db: "1 \<le> year b" "1 \<le> month b" "month b \<le> 12" "1 \<le> day b"
      "day b \<le> days_in_month (year b) (month b)"
    by (simp_all add: valid_datetime_def)
  show ?thesis
    by (rule ymd2ord_less [OF da db])
qed

lemma ord_eq:
  assumes "valid_datetime a" and "valid_datetime b"
  shows "ymd2ord (year a) (month a) (day a) = ymd2ord (year b) (month b) (day b) \<longleftrightarrow>
      year a = year b \<and> month a = month b \<and> day a = day b"
proof -
  have "ymd2ord (year a) (month a) (day a) = ymd2ord (year b) (month b) (day b) \<longleftrightarrow>
      \<not> ymd2ord (year a) (month a) (day a) < ymd2ord (year b) (month b) (day b) \<and>
      \<not> ymd2ord (year b) (month b) (day b) < ymd2ord (year a) (month a) (day a)"
    by auto
  also have "\<dots> \<longleftrightarrow> year a = year b \<and> month a = month b \<and> day a = day b"
    unfolding ord_less [OF assms] ord_less [OF assms(2,1)] by auto
  finally show ?thesis .
qed

lemma wall_less:
  assumes "valid_datetime a" and "valid_datetime b"
  shows "wall a < wall b \<longleftrightarrow> fields_less a b"
proof -
  define D where "D d = int (ymd2ord (year d) (month d) (day d)) - 719163" for d :: datetime
  define H where "H d = D d * 24 + int (hour d)" for d
  define M where "M d = H d * 60 + int (minute d)" for d
  define S where "S d = M d * 60 + int (second d)" for d
  have w: "wall d = S d * 1000000 + int (microsecond d)" for d
    by (simp add: wall_def S_def M_def H_def D_def)
  from assms have va: "hour a < 24" "minute a < 60" "second a < 60" "microsecond a < 1000000"
    and vb: "hour b < 24" "minute b < 60" "second b < 60" "microsecond b < 1000000"
    by (simp_all add: valid_datetime_def)
  have 1: "wall a < wall b \<longleftrightarrow>
          S a < S b \<or> S a = S b \<and> microsecond a < microsecond b"
    unfolding w using va vb by (subst radix_less) simp_all
  have 2: "S a < S b \<longleftrightarrow> M a < M b \<or> M a = M b \<and> second a < second b"
    unfolding S_def using va vb by (subst radix_less) simp_all
  have 3: "S a = S b \<longleftrightarrow> M a = M b \<and> second a = second b"
    unfolding S_def using va vb by (subst radix_eq) simp_all
  have 4: "M a < M b \<longleftrightarrow> H a < H b \<or> H a = H b \<and> minute a < minute b"
    unfolding M_def using va vb by (subst radix_less) simp_all
  have 5: "M a = M b \<longleftrightarrow> H a = H b \<and> minute a = minute b"
    unfolding M_def using va vb by (subst radix_eq) simp_all
  have 6: "H a < H b \<longleftrightarrow> D a < D b \<or> D a = D b \<and> hour a < hour b"
    unfolding H_def using va vb by (subst radix_less) simp_all
  have 7: "H a = H b \<longleftrightarrow> D a = D b \<and> hour a = hour b"
    unfolding H_def using va vb by (subst radix_eq) simp_all
  have 8: "D a < D b \<longleftrightarrow>
      year a < year b \<or> year a = year b \<and>
      (month a < month b \<or> month a = month b \<and> day a < day b)"
    unfolding D_def ordinal_shift by (rule ord_less [OF assms])
  have 10: "D a = D b \<longleftrightarrow> year a = year b \<and> month a = month b \<and> day a = day b"
    unfolding D_def ordinal_shift by (rule ord_eq [OF assms])
  show ?thesis
    unfolding fields_less_def 1 2 3 4 5 6 7 8 10 by blast
qed

lemma pad_2: "pad 2 n = [digit_char (n div 10), digit_char n]"
  by (simp add: numeral_2_eq_2)

lemma format_offset_utc: "format_offset (Some 0) = ''+00:00''"
  by (simp add: format_offset_def pad_2 digit_char_def char_of_eq_iff)

lemma fraction_less:
  assumes "u < 1000000" and "v < 1000000"
  shows "((if u \<noteq> 0 then CHR ''.'' # pad 6 u else []) @ ''+00:00''
          < (if v \<noteq> 0 then CHR ''.'' # pad 6 v else []) @ ''+00:00'') \<longleftrightarrow> u < v"
  using assms
  by (auto simp: less_append_same_length pad_less pad_eq less_char_def)

lemma isoformat_less:
  assumes "valid_datetime a" and "valid_datetime b"
    and "tzinfo a = Some 0" and "tzinfo b = Some 0"
  shows "isoformat a < isoformat b \<longleftrightarrow> fields_less a b"
proof -
  from assms have ma: "month a \<le> 12" "1 \<le> month a" and mb: "month b \<le> 12" "1 \<le> month b"
    by (simp_all add: valid_datetime_def)
  from assms days_in_month_le [OF ma(2,1), of "year a"] days_in_month_le [OF mb(2,1), of "year b"]
  have ba: "year a < 10000" "month a < 100" "day a < 100" "hour a < 100" "minute a < 100"
      "second a < 100" "microsecond a < 1000000"
    and bb: "year b < 10000" "month b < 100" "day b < 100" "hour b < 100" "minute b < 100"
      "second b < 100" "microsecond b < 1000000"
    by (simp_all add: valid_datetime_def)
  have "isoformat a < isoformat b \<longleftrightarrow>
     year a < year b \<or> year a = year b \<and>
    (month a < month b \<or> month a = month b \<and>
    (day a < day b \<or> day a = day b \<and>
    (hour a < hour b \<or> hour a = hour b \<and>
    (minute a < minute b \<or> minute a = minute b \<and>
    (second a < second b \<or> second a = second b \<and>
       ((if microsecond a \<noteq> 0 then CHR ''.'' # pad 6 (microsecond a) else []) @ ''+00:00''
          < (if microsecond b \<noteq> 0 then CHR ''.'' # pad 6 (microsecond b) else []) @ ''+00:00''))))))"
    using ba bb
    by (simp add: isoformat_def assms(3,4) format_offset_utc less_append_same_length
        pad_less pad_eq del: pad.simps split del: if_split cong: if_cong)
  then show ?thesis
    unfolding fraction_less [OF ba(7) bb(7)] fields_less_def .
qed

lemma isoformat_le:
  assumes "valid_datetime a" and "valid_datetime b"
    and "tzinfo a = Some 0" and "tzinfo b = Some 0"
  shows "isoformat a \<le> isoformat b \<longleftrightarrow> wall a \<le> wall b"
proof -
  have "isoformat a \<le> isoformat b \<longleftrightarrow> \<not> isoformat b < isoformat a"
    by auto
  also have "\<dots> \<longleftrightarrow> \<not> wall b < wall a"
    unfolding isoformat_less [OF assms(2,1,4,3)] wall_less [OF assms(2,1)] ..
  also have "\<dots> \<longleftrightarrow> wall a \<le> wall b"
    by auto
  finally show ?thesis .
qed

lemma report_fields:
  assumes "spec_well_formed_entry e" and "spec_report w e = Some t"
  shows "\<exists>d. valid_datetime d \<and> tzinfo d = Some 0 \<and> t_posted_at t = isoformat d \<and>
             t_age_hours t = of_int (now_us w - wall d) / 3600000000"
  using assms
  by (auto simp: spec_well_formed_entry_def spec_report_def spec_instant_def
      split: option.splits sum.splits)

lemma later_is_younger:
  assumes "valid_datetime a" and "valid_datetime b"
    and "tzinfo a = Some 0" and "tzinfo b = Some 0"
    and "t_posted_at s = isoformat a" and "t_posted_at t = isoformat b"
    and "t_age_hours s = of_int (n - wall a) / 3600000000"
    and "t_age_hours t = of_int (n - wall b) / 3600000000"
    and "t_posted_at t \<le> t_posted_at s"
  shows "t_age_hours s \<le> t_age_hours t"
proof -
  from assms(9) have "wall b \<le> wall a"
    unfolding assms(5,6) isoformat_le [OF assms(2,1,4,3)] .
  then have "(of_int (n - wall a) :: rat) \<le> of_int (n - wall b)"
    by simp
  then show ?thesis
    unfolding assms(7,8) by (simp add: divide_right_mono)
qed

lemma sorted_recent_first_ages:
  assumes "\<And>s t. s \<in> set ts \<Longrightarrow> t \<in> set ts \<Longrightarrow> t_posted_at t \<le> t_posted_at s
             \<Longrightarrow> t_age_hours s \<le> t_age_hours t"
  shows "sorted (map t_age_hours (sorted_recent_first ts))"
proof -
  have "sorted (map t_posted_at (sort_key t_posted_at (rev ts)))"
    by (rule sorted_sort_key)
  then have "sorted_wrt (\<lambda>x y. t_posted_at x \<le> t_posted_at y) (sort_key t_posted_at (rev ts))"
    by (simp add: sorted_map)
  then have "sorted_wrt (\<lambda>x y. t_posted_at y \<le> t_posted_at x)
               (rev (sort_key t_posted_at (rev ts)))"
    by (simp add: sorted_wrt_rev)
  then have "sorted_wrt (\<lambda>x y. t_age_hours x \<le> t_age_hours y)
               (rev (sort_key t_posted_at (rev ts)))"
    by (rule sorted_wrt_mono_rel [rotated]) (simp add: assms)
  then show ?thesis
    by (simp add: sorted_recent_first_def sorted_map)
qed

lemma logged_tweet_valid:
  assumes "1 \<le> dd" and "dd \<le> 31" and "hh < 24"
  shows "spec_well_formed_entry (logged_tweet dd hh)"
  using assms
  by (simp add: spec_well_formed_entry_def spec_posted_at_def logged_tweet_def mk_datetime_def
      valid_datetime_def days_in_month_def py_getitem_def)

text \<open>
  C9. For a log that is a list of well-formed entries, \<^verbatim>\<open>get_tweet_count_24h\<close> returns as
  count the number of entries with a timestamp at or after now - 24h, as remaining
  max(0, 17 - count), and as tweets those entries, each once, in the order of
  non-decreasing age, that is the most recent first.
\<close>

theorem count_of_well_formed_log:
  assumes "tweet_log_file w = Content (JArr entries)"
    and "\<forall>e\<in>set entries. spec_well_formed_entry e"
  shows "count (fst (get_tweet_count_24h w)) =
           int (length (filter (spec_in_window w) entries)) \<and>
         remaining (fst (get_tweet_count_24h w)) =
           max 0 (17 - count (fst (get_tweet_count_24h w))) \<and>
         mset (map Some (tweets (fst (get_tweet_count_24h w)))) =
           mset (map (spec_report w) (filter (spec_in_window w) entries)) \<and>
         sorted (map t_age_hours (tweets (fst (get_tweet_count_24h w))))"
proof -
  let ?r = "fst (get_tweet_count_24h w)"
  let ?m = "filter (spec_in_window w) entries"
  from count_well_formed [OF assms] obtain ts where
    ts: "map Some ts = map (spec_report w) ?m"
    and c: "count ?r = int (length ts)"
    and r: "remaining ?r = max 0 (17 - int (length ts))"
    and t: "tweets ?r = sorted_recent_first ts" by blast
  from ts have "length (map Some ts) = length ?m" by simp
  then have len: "length ts = length ?m" by simp
  have "mset (map Some (sorted_recent_first ts)) = mset (map Some ts)"
    by (simp add: sorted_recent_first_def)
  then have perm: "mset (map Some (tweets ?r)) = mset (map (spec_report w) ?m)"
    by (simp add: t ts)
  have src: "\<exists>d. valid_datetime d \<and> tzinfo d = Some 0 \<and> t_posted_at x = isoformat d \<and>
             t_age_hours x = of_int (now_us w - wall d) / 3600000000"
    if "x \<in> set ts" for x
  proof -
    from that have "Some x \<in> set (map Some ts)" by simp
    then have "Some x \<in> set (map (spec_report w) ?m)" by (simp only: ts)
    then obtain e where "e \<in> set entries" "spec_report w e = Some x" by auto
    with assms(2) report_fields show ?thesis by blast
  qed
  have "sorted (map t_age_hours (sorted_recent_first ts))"
  proof (rule sorted_recent_first_ages)
    fix s t assume "s \<in> set ts" "t \<in> set ts" "t_posted_at t \<le> t_posted_at s"
    with src [of s] src [of t] later_is_younger show "t_age_hours s \<le> t_age_hours t"
      by blast
  qed
  with c r len perm t show ?thesis by simp
qed

theorem count_of_well_formed_log_witness:
  "count (fst (get_tweet_count_24h world_three_tweets)) = 2 \<and>
   remaining (fst (get_tweet_count_24h world_three_tweets)) = 15 \<and>
   sorted (map t_age_hours (tweets (fst (get_tweet_count_24h world_three_tweets))))"
proof -
  let ?es = "[logged_tweet 10 9, logged_tweet 9 11, logged_tweet 10 11]"
  have 1: "tweet_log_file world_three_tweets = Content (JArr ?es)"
    by (simp add: world_three_tweets_def world_no_files_def)
  have 2: "\<forall>e\<in>set ?es. spec_well_formed_entry e"
    by (simp add: logged_tweet_valid)
  have 3: "filter (spec_in_window world_three_tweets) ?es
             = [logged_tweet 10 9, logged_tweet 10 11]"
    by (simp add: spec_in_window_def spec_instant_def spec_posted_at_def logged_tweet_def
        clock_defs world_three_tweets_def world_no_files_def)
  from count_of_well_formed_log [OF 1 2] show ?thesis
    unfolding 3 by simp
qed

end
